theory Spec2Isabelle
  imports Complex_Main
begin

section \<open>Data model of \<^verbatim>\<open>pets.py\<close>\<close>

text \<open>
  Python integers are modelled by \<^typ>\<open>int\<close>; Python floats (the throw velocity, and the
  position once a throw has moved it) by \<^typ>\<open>real\<close> with exact arithmetic, so rounding
  of the binary floating-point operations is not part of the model. Every method of
  \<^verbatim>\<open>Pet\<close> wraps its body in \<^verbatim>\<open>try: ... except Exception: print\<close>; an exception
  therefore ends the method with the attributes as they were assigned up to that point,
  and the models below return exactly that object.
\<close>

datatype py_error = KeyError | IndexError | AttributeError | TypeError
  | UnboundLocalError | ZeroDivisionError | ValueError | FileNotFoundError

text \<open>
  An object of class \<^verbatim>\<open>State\<close>. The class itself (\<^verbatim>\<open>state.py\<close>) is not among the
  sources; the fields are the constructor arguments used in \<^verbatim>\<open>pets.py\<close> and the
  attributes \<^verbatim>\<open>pets.py\<close> reads or writes (\<^verbatim>\<open>name\<close>, \<^verbatim>\<open>gif\<close>,
  \<^verbatim>\<open>speed_animation\<close>, \<^verbatim>\<open>direction\<close>, \<^verbatim>\<open>counter\<close>).
\<close>

record state =
  name :: string
  gif :: string
  hold :: int
  movement_speed :: real
  speed_animation :: real
  direction :: int
  counter :: int

text \<open>One entry of \<^verbatim>\<open>self.STATES_INFO\<close>.\<close>

record state_info =
  info_gif :: string
  info_hold :: int
  info_movement_speed :: real
  info_speed_animation :: real

text \<open>The attributes of a fully constructed \<^verbatim>\<open>Pet\<close>.\<close>

record pet =
  species :: string
  color :: string
  fps :: int
  size_str :: string
  screen_width :: int
  screen_height :: int
  width :: int
  height :: int
  x :: real
  y :: real
  y_def :: int
  frames :: "(nat \<times> nat) list"
  frame_count :: nat
  current_frame :: nat
  frame_interval :: "real option"
  dragging :: bool
  drag_offset :: "real \<times> real"
  drag_last_pos :: "(int \<times> int) option"
  throw_velocity :: "real \<times> real"
  right_click_consumed :: bool
  STATES_INFO :: "(string \<times> state_info) list"
  state :: "state option"
  immunity :: bool
  lie_duration :: int
  wall_scene_step :: "int option"
  scene_wallclimb :: bool
  height_lie :: int
  has_main_window :: bool

text \<open>
  The configuration document \<^verbatim>\<open>pets_data.json\<close> (\<^verbatim>\<open>PETS_DATA\<close>): per species an optional
  \<^verbatim>\<open>"states"\<close> table (colour to an ordered dictionary from state name to gif path) and an
  optional \<^verbatim>\<open>"defaults"\<close> table. A key that is absent is \<open>None\<close>.
\<close>

record defaults_entry =
  d_hold :: "int option"
  d_movement_speed :: "real option"
  d_speed_animation :: "real option"

record species_data =
  sd_states :: "(string \<rightharpoonup> (string \<times> string) list) option"
  sd_defaults :: "(string \<rightharpoonup> defaults_entry) option"

type_synonym pets_data = "string \<rightharpoonup> species_data"

text \<open>
  What the tick reads from outside the object: the polled pointer and buttons, and the
  two draws of \<^verbatim>\<open>random.choice\<close> (a draw \<open>r\<close> selects index \<open>r mod n\<close>).
\<close>

record tick_input =
  mouse_x :: int
  mouse_y :: int
  left_down :: bool
  right_down :: bool
  rnd_name :: nat
  rnd_direction :: nat

text \<open>
  The collaborators of \<^verbatim>\<open>pets.py\<close> that are not among the sources, taken as parameters:
  the loaded configuration, the frame sizes \<^verbatim>\<open>GifHelper.load_gif_frames\<close> yields for a gif
  (\<open>None\<close> when it raises), \<^verbatim>\<open>State.next\<close> (its result or the exception it raises, and
  the pet it leaves), \<^verbatim>\<open>squirrel_climb\<close>, \<^verbatim>\<open>go_climb\<close> (with the exception it raised, if
  any), and the two defaults of the \<^verbatim>\<open>State\<close> constructor that
  \<^verbatim>\<open>pets.py\<close> does not pass everywhere.
\<close>

record deps =
  PETS_DATA :: pets_data
  load_gif_frames :: "string \<Rightarrow> (nat \<times> nat) list option"
  state_next :: "pet \<Rightarrow> (py_error + bool) \<times> pet"
  squirrel_climb :: "pet \<Rightarrow> pet"
  go_climb :: "pet \<Rightarrow> py_error option \<times> pet"
  default_direction :: int
  initial_counter :: int

definition State :: "deps \<Rightarrow> string \<Rightarrow> string \<Rightarrow> int \<Rightarrow> real \<Rightarrow> real \<Rightarrow> int option \<Rightarrow> state" where
  "State d nm g h ms sa dir =
     \<lparr>name = nm, gif = g, hold = h, movement_speed = ms, speed_animation = sa,
      direction = (case dir of None \<Rightarrow> default_direction d | Some v \<Rightarrow> v),
      counter = initial_counter d\<rparr>"

section \<open>Random state selection: \<^verbatim>\<open>Pet.random_state\<close>\<close>

text \<open>The \<^verbatim>\<open>exception\<close> argument: \<^verbatim>\<open>None\<close>, one name, or a list of names.\<close>

datatype exception_arg = ExcNone | ExcStr string | ExcList "string list"

text \<open>Truthiness of the argument (\<^verbatim>\<open>if exception:\<close>) and the list it stands for.\<close>

fun exception_names :: "exception_arg \<Rightarrow> string list" where
  "exception_names ExcNone = []"
| "exception_names (ExcStr s) = (if s = [] then [] else [s])"
| "exception_names (ExcList xs) = xs"

text \<open>Lines 96-98: \<^verbatim>\<open>for ex in exception: if ex in keys: keys.remove(ex)\<close>.\<close>

fun remove_exceptions :: "string list \<Rightarrow> string list \<Rightarrow> string list" where
  "remove_exceptions [] keys = keys"
| "remove_exceptions (ex # exs) keys =
     remove_exceptions exs (if ex \<in> set keys then remove1 ex keys else keys)"

text \<open>\<^verbatim>\<open>random.choice\<close>: \<^verbatim>\<open>IndexError\<close> on an empty sequence.\<close>

definition random_choice :: "nat \<Rightarrow> 'a list \<Rightarrow> py_error + 'a" where
  "random_choice r xs = (if xs = [] then Inl IndexError else Inr (xs ! (r mod length xs)))"

text \<open>
  The body of \<^verbatim>\<open>random_state\<close> inside its \<^verbatim>\<open>try\<close>; \<open>Inl\<close> is the exception that the
  \<^verbatim>\<open>except\<close> clause catches.
\<close>

definition random_state_body ::
  "deps \<Rightarrow> nat \<Rightarrow> nat \<Rightarrow> (string \<times> state_info) list \<Rightarrow> exception_arg \<Rightarrow> py_error + state" where
  "random_state_body d r1 r2 infos exc =
     (let keys = map fst infos;
          keys1 = remove_exceptions (exception_names exc) keys;
          keys2 = (if keys1 = [] then map fst infos else keys1)
      in case random_choice r1 keys2 of
           Inl e \<Rightarrow> Inl e
         | Inr nm \<Rightarrow>
             (case map_of infos nm of
                None \<Rightarrow> Inl KeyError
              | Some info \<Rightarrow>
                  (case random_choice r2 [- 1, 1 :: int] of
                     Inl e \<Rightarrow> Inl e
                   | Inr dir \<Rightarrow>
                       Inr (State d nm (info_gif info) (info_hold info)
                              (info_movement_speed info) (info_speed_animation info) (Some dir)))))"

text \<open>\<^verbatim>\<open>random_state\<close>: a caught exception makes the method return \<^verbatim>\<open>None\<close>.\<close>

definition random_state ::
  "deps \<Rightarrow> nat \<Rightarrow> nat \<Rightarrow> (string \<times> state_info) list \<Rightarrow> exception_arg \<Rightarrow> state option" where
  "random_state d r1 r2 infos exc =
     (case random_state_body d r1 r2 infos exc of Inl e \<Rightarrow> None | Inr st \<Rightarrow> Some st)"

text \<open>The standing exclusion list of lines 62 and 185.\<close>

definition standing_exclusion :: exception_arg where
  "standing_exclusion =
     ExcList [''with_ball'', ''wallclimb'', ''walldig'', ''wallgrab'', ''wallnap'', ''fall_from_grab'']"

section \<open>Frame loading: \<^verbatim>\<open>Pet.frame_animation\<close>\<close>

text \<open>\<^verbatim>\<open>str.lower\<close> on the ASCII letters.\<close>

definition lower_char :: "char \<Rightarrow> char" where
  "lower_char c =
     (case map_of (zip ''ABCDEFGHIJKLMNOPQRSTUVWXYZ'' ''abcdefghijklmnopqrstuvwxyz'') c of
        Some l \<Rightarrow> l
      | None \<Rightarrow> c)"

definition lower :: "string \<Rightarrow> string" where
  "lower s = map lower_char s"

text \<open>
  Lines 243-254: the target height of one frame; \<open>None\<close> when no branch assigns
  \<^verbatim>\<open>new_height\<close> in this iteration (the value of the previous iteration, if any, stays).
\<close>

definition bucket_height :: "string \<Rightarrow> nat \<Rightarrow> nat option" where
  "bucket_height sz orig_height =
     (if lower sz = ''very small'' then Some 20
      else if lower sz = ''small'' then Some 40
      else if lower sz = ''original'' then Some orig_height
      else if lower sz = ''medium'' then Some 125
      else if lower sz = ''big'' then Some 150
      else if lower sz = ''really big'' then Some 200
      else None)"

text \<open>
  The loop of lines 241-257 over the frame sizes. The accumulator holds the resized
  sizes appended so far and the current binding of \<^verbatim>\<open>new_height\<close>; the result also tells
  which exception, if any, stopped the loop: no binding of \<^verbatim>\<open>new_height\<close>, a division by
  a height of zero, or the \<^verbatim>\<open>ValueError\<close> of \<^verbatim>\<open>Image.resize\<close> for a target size with a
  zero side.
\<close>

fun resize_frames ::
  "string \<Rightarrow> (nat \<times> nat) list \<Rightarrow> (nat \<times> nat) list \<Rightarrow> nat option
     \<Rightarrow> (nat \<times> nat) list \<times> nat option \<times> py_error option" where
  "resize_frames sz [] acc nh = (acc, nh, None)"
| "resize_frames sz ((orig_width, orig_height) # fs) acc nh =
     (case (case bucket_height sz orig_height of Some h \<Rightarrow> Some h | None \<Rightarrow> nh) of
        None \<Rightarrow> (acc, None, Some UnboundLocalError)
      | Some new_height \<Rightarrow>
          if orig_height = 0 then (acc, Some new_height, Some ZeroDivisionError)
          else if (orig_width * new_height) div orig_height = 0 \<or> new_height = 0
          then (acc, Some new_height, Some ValueError)
          else resize_frames sz fs
                 (acc @ [((orig_width * new_height) div orig_height, new_height)]) (Some new_height))"

text \<open>
  \<^verbatim>\<open>frame_animation\<close>. Every exception is caught inside the method, so the result is the
  pet with the assignments made before the failing line.
\<close>

definition frame_animation :: "deps \<Rightarrow> pet \<Rightarrow> pet" where
  "frame_animation d p =
     (let p0 = p\<lparr>frames := []\<rparr>
      in case state p0 of
           None \<Rightarrow> p0
         | Some st \<Rightarrow>
             (case load_gif_frames d (gif st) of
                None \<Rightarrow> p0
              | Some fs \<Rightarrow>
                  (case resize_frames (size_str p0) fs [] None of
                     (frs, nh, Some e) \<Rightarrow> p0\<lparr>frames := frs\<rparr>
                   | (frs, None, None) \<Rightarrow> p0\<lparr>frames := frs\<rparr>
                   | (frs, Some new_height, None) \<Rightarrow>
                       (case frs of
                          [] \<Rightarrow> p0\<lparr>frames := frs, height_lie := int new_height\<rparr>
                        | (w, h) # _ \<Rightarrow>
                            (let p1 = p0\<lparr>frames := frs, height_lie := int new_height,
                                        width := int w, height := int h,
                                        frame_count := length frs, current_frame := 0,
                                        state := Some (st\<lparr>counter := 0\<rparr>)\<rparr>
                             in if speed_animation st \<noteq> 0 \<and> real_of_int (fps p1) * speed_animation st \<noteq> 0
                                then p1\<lparr>frame_interval := Some (1 / (real_of_int (fps p1) * speed_animation st))\<rparr>
                                else p1)))))"

section \<open>Throw physics: \<^verbatim>\<open>Pet._apply_throw\<close>\<close>

definition set_vx :: "real \<Rightarrow> pet \<Rightarrow> pet" where
  "set_vx v p = p\<lparr>throw_velocity := (v, snd (throw_velocity p))\<rparr>"

definition set_vy :: "real \<Rightarrow> pet \<Rightarrow> pet" where
  "set_vy v p = p\<lparr>throw_velocity := (fst (throw_velocity p), v)\<rparr>"

definition vx :: "pet \<Rightarrow> real" where
  "vx p = fst (throw_velocity p)"

definition vy :: "pet \<Rightarrow> real" where
  "vy p = snd (throw_velocity p)"

text \<open>Lines 211-215: move by the velocity, then damp both components by 0.85.\<close>

definition throw_move :: "pet \<Rightarrow> pet" where
  "throw_move p =
     (let p1 = p\<lparr>x := x p + vx p\<rparr>;
          p2 = p1\<lparr>y := y p1 + vy p1\<rparr>;
          p3 = set_vx (vx p2 * 0.85) p2
      in set_vy (vy p3 * 0.85) p3)"

text \<open>Lines 217-230: the four boundary tests, in the order of the source.\<close>

definition throw_bounce :: "pet \<Rightarrow> pet" where
  "throw_bounce p =
     (let max_x = real_of_int (screen_width p - width p);
          max_y = real_of_int (screen_height p - height p);
          p1 = (if x p < 0 then set_vx (- vx p * 0.6) (p\<lparr>x := 0\<rparr>) else p);
          p2 = (if x p1 > max_x then set_vx (- vx p1 * 0.6) (p1\<lparr>x := max_x\<rparr>) else p1);
          p3 = (if y p2 < 0 then set_vy (- vy p2 * 0.6) (p2\<lparr>y := 0\<rparr>) else p2)
      in (if y p3 > max_y then set_vy (- vy p3 * 0.6) (p3\<lparr>y := max_y\<rparr>) else p3))"

text \<open>
  \<^verbatim>\<open>_apply_throw\<close>: the returned flag is the method's result (\<^verbatim>\<open>True\<close> while the throw
  is active), the pet is the object after the call.
\<close>

definition apply_throw :: "pet \<Rightarrow> bool \<times> pet" where
  "apply_throw p =
     (if \<bar>vx p\<bar> < 0.2 \<and> \<bar>vy p\<bar> < 0.2
      then (False, p\<lparr>throw_velocity := (0, 0)\<rparr>)
      else (True, throw_bounce (throw_move p)))"

text \<open>Repeated throw steps with no further input.\<close>

fun throw_steps :: "nat \<Rightarrow> pet \<Rightarrow> pet" where
  "throw_steps 0 p = p"
| "throw_steps (Suc n) p = throw_steps n (snd (apply_throw p))"

text \<open>The tick bound of the specification, \<open>\<lceil>log(0.2/10) / log(0.85)\<rceil>\<close>.\<close>

definition throw_tick_bound :: nat where
  "throw_tick_bound = nat \<lceil>ln (0.2 / 10) / ln (0.85 :: real)\<rceil>"

section \<open>The tick: \<^verbatim>\<open>Pet.update_state\<close>\<close>

text \<open>Lines 126-129, evaluated once at the start of the tick.\<close>

definition in_bounds :: "tick_input \<Rightarrow> pet \<Rightarrow> bool" where
  "in_bounds i p \<longleftrightarrow>
     x p \<le> real_of_int (mouse_x i) \<and> real_of_int (mouse_x i) \<le> x p + real_of_int (width p) \<and>
     y p \<le> real_of_int (mouse_y i) \<and> real_of_int (mouse_y i) \<le> y p + real_of_int (height p)"

text \<open>
  Lines 131-136. The second component counts the calls of
  \<^verbatim>\<open>self.main_window.check_messages()\<close> made in this tick.
\<close>

definition right_click_phase :: "tick_input \<Rightarrow> bool \<Rightarrow> pet \<Rightarrow> pet \<times> nat" where
  "right_click_phase i inb p =
     (let (p1, calls) =
            (if right_down i \<and> inb \<and> \<not> right_click_consumed p
             then (p\<lparr>right_click_consumed := True\<rparr>, if has_main_window p then 1 else 0)
             else (p, 0));
          p2 = (if \<not> right_down i then p1\<lparr>right_click_consumed := False\<rparr> else p1)
      in (p2, calls))"

text \<open>Lines 138-142: a drag begins.\<close>

definition drag_begin :: "tick_input \<Rightarrow> bool \<Rightarrow> pet \<Rightarrow> pet" where
  "drag_begin i inb p =
     (if left_down i \<and> inb \<and> \<not> dragging p
      then p\<lparr>dragging := True,
             drag_offset := (real_of_int (mouse_x i) - x p, real_of_int (mouse_y i) - y p),
             drag_last_pos := Some (mouse_x i, mouse_y i),
             throw_velocity := (0, 0)\<rparr>
      else p)"

text \<open>Lines 146-154: one tick of an ongoing drag.\<close>

definition drag_track :: "tick_input \<Rightarrow> pet \<Rightarrow> pet" where
  "drag_track i p =
     (let new_x = real_of_int (mouse_x i) - fst (drag_offset p);
          new_y = real_of_int (mouse_y i) - snd (drag_offset p);
          p1 = (case drag_last_pos p of
                  None \<Rightarrow> p
                | Some (last_x, last_y) \<Rightarrow>
                    p\<lparr>throw_velocity :=
                        (real_of_int (mouse_x i - last_x), real_of_int (mouse_y i - last_y))\<rparr>);
          p2 = p1\<lparr>drag_last_pos := Some (mouse_x i, mouse_y i)\<rparr>;
          p3 = p2\<lparr>x := max 0 (min new_x (real_of_int (screen_width p2 - width p2)))\<rparr>
      in p3\<lparr>y := max 0 (min new_y (real_of_int (screen_height p3 - height p3)))\<rparr>)"

text \<open>Lines 156-159: the primary button was released while dragging.\<close>

definition drag_release :: "pet \<Rightarrow> pet" where
  "drag_release p =
     (let p1 = p\<lparr>dragging := False\<rparr>;
          p2 = p1\<lparr>throw_velocity := (vx p1 * 1.5, vy p1 * 1.5)\<rparr>
      in p2\<lparr>drag_last_pos := None\<rparr>)"

text \<open>Which exit of \<^verbatim>\<open>update_state\<close> a tick took.\<close>

datatype tick_exit =
    Drag_return
  | Throw_return
  | Climb_return
  | Completed
  | Raised py_error

record tick_result =
  pet_after :: pet
  exit_taken :: tick_exit
  check_messages_calls :: nat

text \<open>Line 164.\<close>

definition distance :: "tick_input \<Rightarrow> pet \<Rightarrow> real" where
  "distance i p = sqrt ((x p - real_of_int (mouse_x i))\<^sup>2 + (y p - real_of_int (mouse_y i))\<^sup>2)"

text \<open>Line 170: \<^verbatim>\<open>PETS_DATA[self.species]["states"][self.color]\<close>.\<close>

definition color_states :: "deps \<Rightarrow> pet \<Rightarrow> py_error + (string \<times> string) list" where
  "color_states d p =
     (case PETS_DATA d (species p) of
        None \<Rightarrow> Inl KeyError
      | Some sd \<Rightarrow>
          (case sd_states sd of
             None \<Rightarrow> Inl KeyError
           | Some by_color \<Rightarrow>
               (case by_color (color p) of None \<Rightarrow> Inl KeyError | Some cs \<Rightarrow> Inr cs)))"

text \<open>
  Lines 174-175: \<^verbatim>\<open>PETS_DATA[self.species]["defaults"].get("lie", {})\<close>; only the
  subscript \<^verbatim>\<open>["defaults"]\<close> can raise.
\<close>

definition lie_defaults :: "deps \<Rightarrow> pet \<Rightarrow> py_error + defaults_entry" where
  "lie_defaults d p =
     (case PETS_DATA d (species p) of
        None \<Rightarrow> Inl KeyError
      | Some sd \<Rightarrow>
          (case sd_defaults sd of
             None \<Rightarrow> Inl KeyError
           | Some dflt \<Rightarrow>
               (case dflt ''lie'' of
                  None \<Rightarrow> Inr \<lparr>d_hold = None, d_movement_speed = None, d_speed_animation = None\<rparr>
                | Some e \<Rightarrow> Inr e)))"

text \<open>
  Lines 172-179: the proximity override. The first component is the exception that ended
  the block, if any; the pet is the object at that point.
\<close>

definition lie_override :: "deps \<Rightarrow> string \<Rightarrow> pet \<Rightarrow> py_error option \<times> pet" where
  "lie_override d gif_path p =
     (case lie_defaults d p of
        Inl e \<Rightarrow> (Some e, p)
      | Inr e \<Rightarrow>
          (let ms = (case d_movement_speed e of None \<Rightarrow> 0 | Some v \<Rightarrow> v);
               sa = (case d_speed_animation e of None \<Rightarrow> 1.0 | Some v \<Rightarrow> v);
               p1 = p\<lparr>state := Some (State d ''lie'' gif_path (lie_duration p) ms sa None)\<rparr>;
               p2 = p1\<lparr>immunity := True\<rparr>
           in (None, frame_animation d p2)))"

text \<open>Lines 181-188: the running state's \<^verbatim>\<open>next\<close>, and the transition when it completes.\<close>

definition state_cycle :: "deps \<Rightarrow> tick_input \<Rightarrow> pet \<Rightarrow> py_error option \<times> pet" where
  "state_cycle d i p =
     (case state p of
        None \<Rightarrow> (Some AttributeError, p)
      | Some st \<Rightarrow>
          (case state_next d p of
             (Inl e, p1) \<Rightarrow> (Some e, p1)
           | (Inr False, p1) \<Rightarrow> (None, p1)
           | (Inr True, p1) \<Rightarrow>
               (if species p1 = ''squirrel''
                then (case go_climb d p1 of
                        (Some e, p2) \<Rightarrow> (Some e, p2)
                      | (None, p2) \<Rightarrow> (None, frame_animation d (p2\<lparr>immunity := False\<rparr>)))
                else (let p2 = p1\<lparr>state := random_state d (rnd_name i) (rnd_direction i)
                                             (STATES_INFO p1) standing_exclusion\<rparr>
                      in (None, frame_animation d (p2\<lparr>immunity := False\<rparr>))))))"

text \<open>
  Lines 192-195 and 196-199: one lateral test. Reading \<^verbatim>\<open>self.state.name\<close> raises
  \<^verbatim>\<open>AttributeError\<close> when \<^verbatim>\<open>self.state\<close> is \<^verbatim>\<open>None\<close>, after the position was assigned.
\<close>

definition lateral_clamp :: "real \<Rightarrow> pet \<Rightarrow> py_error option \<times> pet" where
  "lateral_clamp bound p =
     (let p1 = p\<lparr>x := bound\<rparr>
      in case state p1 of
           None \<Rightarrow> (Some AttributeError, p1)
         | Some st \<Rightarrow>
             (if name st \<noteq> ''walldig''
              then (None, p1\<lparr>state := Some (st\<lparr>direction := direction st * (- 1)\<rparr>)\<rparr>)
              else (None, p1)))"

text \<open>Lines 190-199: the lateral screen-partition constraint.\<close>

definition lateral_constraint :: "pet \<Rightarrow> py_error option \<times> pet" where
  "lateral_constraint p =
     (let min_x = real_of_int (screen_width p - screen_width p div 4);
          max_x = real_of_int (screen_width p - width p);
          (e1, p1) = (if x p < min_x then lateral_clamp min_x p else (None, p))
      in case e1 of
           Some e \<Rightarrow> (Some e, p1)
         | None \<Rightarrow> (if x p1 > max_x then lateral_clamp max_x p1 else (None, p1)))"

text \<open>Lines 171-188: the proximity override, or else the state cycle.\<close>

definition react :: "deps \<Rightarrow> tick_input \<Rightarrow> (string \<times> string) list \<Rightarrow> pet \<Rightarrow> py_error option \<times> pet" where
  "react d i cs p =
     (case map_of cs ''lie'' of
        None \<Rightarrow> state_cycle d i p
      | Some gif_path \<Rightarrow>
          (if distance i p < real_of_int (height_lie p) \<and> \<not> immunity p
           then lie_override d gif_path p
           else state_cycle d i p))"

text \<open>Lines 164-199: the tick after drag and throw have been ruled out.\<close>

definition behave :: "deps \<Rightarrow> tick_input \<Rightarrow> pet \<Rightarrow> pet \<times> tick_exit" where
  "behave d i p =
     (case wall_scene_step p of
        Some step \<Rightarrow> (squirrel_climb d p, Climb_return)
      | None \<Rightarrow>
          (case color_states d p of
             Inl e \<Rightarrow> (p, Raised e)
           | Inr cs \<Rightarrow>
               (case react d i cs p of
                  (Some e, p1) \<Rightarrow> (p1, Raised e)
                | (None, p1) \<Rightarrow>
                    (case lateral_constraint p1 of
                       (Some e, p2) \<Rightarrow> (p2, Raised e)
                     | (None, p2) \<Rightarrow> (p2, Completed)))))"

text \<open>Lines 161-199: the throw step, and the rest of the tick when no throw is active.\<close>

definition after_drag :: "deps \<Rightarrow> tick_input \<Rightarrow> pet \<Rightarrow> pet \<times> tick_exit" where
  "after_drag d i p =
     (case apply_throw p of
        (True, p1) \<Rightarrow> (p1, Throw_return)
      | (False, p1) \<Rightarrow> behave d i p1)"

text \<open>Lines 144-159: the drag branch.\<close>

definition drag_phase :: "deps \<Rightarrow> tick_input \<Rightarrow> pet \<Rightarrow> pet \<times> tick_exit" where
  "drag_phase d i p =
     (if dragging p
      then (if left_down i then (drag_track i p, Drag_return)
            else after_drag d i (drag_release p))
      else after_drag d i p)"

text \<open>\<^verbatim>\<open>update_state\<close>, lines 118-202.\<close>

definition update_state :: "deps \<Rightarrow> tick_input \<Rightarrow> pet \<Rightarrow> tick_result" where
  "update_state d i p =
     (let inb = in_bounds i p;
          (p1, calls) = right_click_phase i inb p;
          p2 = drag_begin i inb p1;
          (p3, ex) = drag_phase d i p2
      in \<lparr>pet_after = p3, exit_taken = ex, check_messages_calls = calls\<rparr>)"

section \<open>Construction: \<^verbatim>\<open>Pet.__init__\<close>\<close>

text \<open>What the constructor reads from the system, and its two random draws.\<close>

record init_env =
  sys_screen_width :: int
  sys_screen_height :: int
  taskbar_height :: int
  taskbar_autohide :: bool
  taskbar_edge :: int
  init_rnd_name :: nat
  init_rnd_direction :: nat

text \<open>Lines 49-59: the catalogue lookup and the construction of \<^verbatim>\<open>STATES_INFO\<close>.\<close>

definition make_info :: "(string \<rightharpoonup> defaults_entry) \<Rightarrow> int \<Rightarrow> string \<times> string \<Rightarrow> string \<times> state_info" where
  "make_info dflt base_fps item =
     (case item of (state_name, gif_path) \<Rightarrow>
        (let e = (case dflt state_name of
                    None \<Rightarrow> \<lparr>d_hold = None, d_movement_speed = None, d_speed_animation = None\<rparr>
                  | Some e \<Rightarrow> e)
         in (state_name,
             \<lparr>info_gif = gif_path,
              info_hold = (case d_hold e of None \<Rightarrow> base_fps | Some h \<Rightarrow> h),
              info_movement_speed = (case d_movement_speed e of None \<Rightarrow> 0 | Some v \<Rightarrow> v),
              info_speed_animation = (case d_speed_animation e of None \<Rightarrow> 1.0 | Some v \<Rightarrow> v)\<rparr>)))"

definition lookup_states_info :: "pets_data \<Rightarrow> string \<Rightarrow> string \<Rightarrow> int \<Rightarrow> py_error + (string \<times> state_info) list" where
  "lookup_states_info data sp col base_fps =
     (case data sp of
        None \<Rightarrow> Inl KeyError
      | Some sd \<Rightarrow>
          (let dflt = (case sd_defaults sd of None \<Rightarrow> Map.empty | Some m \<Rightarrow> m)
           in case sd_states sd of
                None \<Rightarrow> Inl KeyError
              | Some by_color \<Rightarrow>
                  (case by_color col of
                     None \<Rightarrow> Inl KeyError
                   | Some items \<Rightarrow> Inr (map (make_info dflt base_fps) items))))"

text \<open>Whether \<^verbatim>\<open>frame_animation\<close> reaches line 261 and assigns \<^verbatim>\<open>width\<close> and \<^verbatim>\<open>height\<close>.\<close>

definition frames_sized :: "deps \<Rightarrow> pet \<Rightarrow> bool" where
  "frames_sized d p =
     (case state p of
        None \<Rightarrow> False
      | Some st \<Rightarrow>
          (case load_gif_frames d (gif st) of
             None \<Rightarrow> False
           | Some fs \<Rightarrow>
               (case resize_frames (size_str p) fs [] None of
                  (frs, Some new_height, None) \<Rightarrow> frs \<noteq> []
                | _ \<Rightarrow> False)))"

text \<open>
  The body of the constructor inside its \<^verbatim>\<open>try\<close>. \<open>Inl\<close> is the exception that reaches
  the \<^verbatim>\<open>except\<close> clause. When \<^verbatim>\<open>frame_animation\<close> did not assign \<^verbatim>\<open>height\<close> it is still
  \<^verbatim>\<open>None\<close> at line 67 or 70, and the subtraction raises \<^verbatim>\<open>TypeError\<close>.
\<close>

definition Pet_init_body :: "deps \<Rightarrow> init_env \<Rightarrow> string \<Rightarrow> string \<Rightarrow> int \<Rightarrow> string \<Rightarrow> py_error + pet" where
  "Pet_init_body d env sp col base_fps sz =
     (case lookup_states_info (PETS_DATA d) sp col base_fps of
        Inl e \<Rightarrow> Inl e
      | Inr infos \<Rightarrow>
          (let p0 = \<lparr>species = sp, color = col, fps = base_fps, size_str = sz,
                     screen_width = sys_screen_width env, screen_height = sys_screen_height env,
                     width = 0, height = 0, x = 0, y = 0, y_def = 0,
                     frames = [], frame_count = 0, current_frame = 0, frame_interval = None,
                     dragging = False, drag_offset = (0, 0), drag_last_pos = None,
                     throw_velocity = (0, 0), right_click_consumed = False,
                     STATES_INFO = infos,
                     state = random_state d (init_rnd_name env) (init_rnd_direction env) infos
                               standing_exclusion,
                     immunity = False, lie_duration = 24, wall_scene_step = None,
                     scene_wallclimb = False, height_lie = 20, has_main_window = False\<rparr>;
               p1 = frame_animation d p0
           in if \<not> frames_sized d p0 then Inl TypeError
              else (let rest_y = (if taskbar_autohide env \<or> taskbar_edge env \<noteq> 3
                                  then screen_height p1 - height p1
                                  else screen_height p1 - height p1 - taskbar_height env);
                        p2 = p1\<lparr>y_def := rest_y, y := real_of_int rest_y\<rparr>;
                        p3 = p2\<lparr>x := real_of_int (screen_width p2 - width p2)\<rparr>
                    in Inr (p3\<lparr>immunity := False, lie_duration := 24, wall_scene_step := None,
                               scene_wallclimb := False, height_lie := 20\<rparr>))))"

text \<open>
  The object a call \<^verbatim>\<open>Pet(species, color, fps, size)\<close> yields: the \<^verbatim>\<open>except\<close> clause of
  the constructor prints the exception and lets the call return, so the caller receives an
  object whose attributes are those assigned before the failing line.
\<close>

datatype pet_object = Initialised pet | Half_initialised py_error

text \<open>\<open>Inl\<close> would be an exception propagating to the caller of the constructor.\<close>

definition Pet_init :: "deps \<Rightarrow> init_env \<Rightarrow> string \<Rightarrow> string \<Rightarrow> int \<Rightarrow> string \<Rightarrow> py_error + pet_object" where
  "Pet_init d env sp col base_fps sz =
     (case Pet_init_body d env sp col base_fps sz of
        Inl e \<Rightarrow> Inr (Half_initialised e)
      | Inr p \<Rightarrow> Inr (Initialised p))"

section \<open>The catalogue loader of \<^verbatim>\<open>old/pet_demo.py\<close>\<close>

record DeskPetsMapping =
  m_species :: string
  m_variant :: string
  m_states :: "(string \<times> string) list"
  m_defaults :: "string \<rightharpoonup> defaults_entry"

text \<open>
  \<^verbatim>\<open>load_deskpets_mapping\<close>. The first argument is the parsed \<^verbatim>\<open>pets_data.json\<close>, \<open>None\<close>
  when the file does not exist; the second tells which asset paths exist. The function has
  no \<^verbatim>\<open>try\<close>: \<open>Inl\<close> is the exception its caller receives.
\<close>

definition load_deskpets_mapping ::
  "pets_data option \<Rightarrow> (string \<Rightarrow> bool) \<Rightarrow> string \<Rightarrow> string \<Rightarrow> py_error + DeskPetsMapping" where
  "load_deskpets_mapping file asset_exists sp variant =
     (case file of
        None \<Rightarrow> Inl FileNotFoundError
      | Some data \<Rightarrow>
          (case data sp of
             None \<Rightarrow> Inl KeyError
           | Some sd \<Rightarrow>
               (let states_by_variant = (case sd_states sd of None \<Rightarrow> Map.empty | Some m \<Rightarrow> m)
                in case states_by_variant variant of
                     None \<Rightarrow> Inl KeyError
                   | Some states \<Rightarrow>
                       (let dflt = (case sd_defaults sd of None \<Rightarrow> Map.empty | Some m \<Rightarrow> m)
                        in if list_ex (\<lambda>item. \<not> asset_exists (snd item)) states
                           then Inl FileNotFoundError
                           else Inr \<lparr>m_species = sp, m_variant = variant,
                                     m_states = states, m_defaults = dflt\<rparr>))))"

section \<open>The inbox: \<^verbatim>\<open>messaging.py\<close>\<close>

text \<open>The values \<^verbatim>\<open>json.loads\<close> yields; an object keeps its keys in order.\<close>

datatype json =
    JNull
  | JBool bool
  | JNum real
  | JStr string
  | JArr "json list"
  | JObj "(string \<times> json) list"

text \<open>
  One physical line of a \<^verbatim>\<open>.jsonl\<close> file, by what \<^verbatim>\<open>read_jsonl\<close> makes of it: empty after
  \<^verbatim>\<open>strip\<close>, rejected by \<^verbatim>\<open>json.loads\<close>, or decoded to a value. \<^verbatim>\<open>overwrite_jsonl\<close> writes
  \<^verbatim>\<open>json.dumps(r)\<close> per row, which decodes to \<open>r\<close> again.
\<close>

datatype line = Blank | Undecodable string | Decodes json

type_synonym file_system = "string \<rightharpoonup> line list"

fun read_lines :: "line list \<Rightarrow> json list" where
  "read_lines [] = []"
| "read_lines (Blank # ls) = read_lines ls"
| "read_lines (Undecodable s # ls) = read_lines ls"
| "read_lines (Decodes v # ls) = v # read_lines ls"

definition read_jsonl :: "file_system \<Rightarrow> string \<Rightarrow> json list" where
  "read_jsonl fs path = (case fs path of None \<Rightarrow> [] | Some ls \<Rightarrow> read_lines ls)"

definition overwrite_jsonl :: "file_system \<Rightarrow> string \<Rightarrow> json list \<Rightarrow> file_system" where
  "overwrite_jsonl fs path rows = fs(path \<mapsto> map Decodes rows)"

definition inbox_path :: "string \<Rightarrow> string \<Rightarrow> string" where
  "inbox_path shared_dir user_id = shared_dir @ ''/inbox_'' @ user_id @ ''.jsonl''"

text \<open>\<^verbatim>\<open>atomic_append_jsonl\<close>: one more line at the end of the file, created if absent.\<close>

definition atomic_append_jsonl :: "file_system \<Rightarrow> string \<Rightarrow> json \<Rightarrow> file_system" where
  "atomic_append_jsonl fs path obj =
     fs(path \<mapsto> (case fs path of None \<Rightarrow> [] | Some ls \<Rightarrow> ls) @ [Decodes obj])"

text \<open>\<^verbatim>\<open>d[key] = v\<close> on an ordered dictionary.\<close>

fun dict_set :: "string \<Rightarrow> json \<Rightarrow> (string \<times> json) list \<Rightarrow> (string \<times> json) list" where
  "dict_set k v [] = [(k, v)]"
| "dict_set k v ((k', v') # kvs) = (if k' = k then (k, v) # kvs else (k', v') # dict_set k v kvs)"

text \<open>Python truthiness of a decoded value.\<close>

fun truthy :: "json \<Rightarrow> bool" where
  "truthy JNull = False"
| "truthy (JBool b) = b"
| "truthy (JNum r) = (r \<noteq> 0)"
| "truthy (JStr s) = (s \<noteq> [])"
| "truthy (JArr vs) = (vs \<noteq> [])"
| "truthy (JObj kvs) = (kvs \<noteq> [])"

text \<open>
  A \<^typ>\<open>char\<close> stands for a code point below 256. These twelve are the code points of
  that range that \<^verbatim>\<open>str.strip\<close> removes (those for which \<^verbatim>\<open>str.isspace\<close> holds).
\<close>

definition is_space :: "char \<Rightarrow> bool" where
  "is_space c \<longleftrightarrow> c \<in> set [CHR '' '', CHR 0x09, CHR 0x0A, CHR 0x0B, CHR 0x0C, CHR 0x0D,
                              CHR 0x1C, CHR 0x1D, CHR 0x1E, CHR 0x1F, CHR 0x85, CHR 0xA0]"

definition strip :: "string \<Rightarrow> string" where
  "strip s = rev (dropWhile is_space (rev (dropWhile is_space s)))"

text \<open>
  \<^verbatim>\<open>send_message\<close> with the drawn identifier and the time of the call; the text argument
  may be \<^verbatim>\<open>None\<close>. Nothing is written for a text that is empty after \<^verbatim>\<open>strip\<close>.
\<close>

definition send_message ::
  "file_system \<Rightarrow> string \<Rightarrow> real \<Rightarrow> string \<Rightarrow> string \<Rightarrow> string \<Rightarrow> string option
     \<Rightarrow> file_system" where
  "send_message fs msg_id t shared_dir sender receiver text_arg =
     (let body = strip (case text_arg of None \<Rightarrow> [] | Some s \<Rightarrow> s)
      in if body = [] then fs
         else atomic_append_jsonl fs (inbox_path shared_dir receiver)
                (JObj [(''msg_id'', JStr msg_id), (''sender'', JStr sender),
                       (''receiver'', JStr receiver), (''created_at'', JNum t),
                       (''text'', JStr body), (''delivered'', JBool False)]))"

text \<open>
  Line 91: \<^verbatim>\<open>(r.get("text", "") or "").strip()\<close>. A truthy value that is not a string has no
  \<^verbatim>\<open>strip\<close>.
\<close>

definition row_text :: "(string \<times> json) list \<Rightarrow> py_error + string" where
  "row_text kvs =
     (let v = (case map_of kvs ''text'' of None \<Rightarrow> JStr [] | Some v \<Rightarrow> v)
      in if truthy v then (case v of JStr s \<Rightarrow> Inr (strip s) | _ \<Rightarrow> Inl AttributeError)
         else Inr (strip []))"

text \<open>
  The loop of lines 84-93 over the rows. It returns the rows as they are after the loop,
  the list \<^verbatim>\<open>out\<close> and the flag \<^verbatim>\<open>changed\<close>, or the exception that stopped it.
\<close>

fun deliver_rows :: "real \<Rightarrow> json list \<Rightarrow> py_error + (json list \<times> json list \<times> bool)" where
  "deliver_rows t [] = Inr ([], [], False)"
| "deliver_rows t (JObj kvs # rs) =
     (if map_of kvs ''delivered'' = Some (JBool True)
      then (case deliver_rows t rs of
              Inl e \<Rightarrow> Inl e
            | Inr (rows', out, changed) \<Rightarrow> Inr (JObj kvs # rows', out, changed))
      else (let kvs' = dict_set ''delivered_at'' (JNum t) (dict_set ''delivered'' (JBool True) kvs)
            in case row_text kvs' of
                 Inl e \<Rightarrow> Inl e
               | Inr text \<Rightarrow>
                   (case deliver_rows t rs of
                      Inl e \<Rightarrow> Inl e
                    | Inr (rows', out, changed) \<Rightarrow>
                        Inr (JObj kvs' # rows',
                             (if text \<noteq> [] then JObj kvs' # out else out), True))))"
| "deliver_rows t (r # rs) = Inl AttributeError"

text \<open>
  \<^verbatim>\<open>fetch_undelivered\<close> at time \<open>t\<close>: the returned list, or the exception the caller
  receives, and the file system after the call.
\<close>

definition fetch_undelivered ::
  "file_system \<Rightarrow> real \<Rightarrow> string \<Rightarrow> string \<Rightarrow> (py_error + json list) \<times> file_system" where
  "fetch_undelivered fs t shared_dir user_id =
     (let path = inbox_path shared_dir user_id;
          rows = read_jsonl fs path
      in if rows = [] then (Inr [], fs)
         else (case deliver_rows t rows of
                 Inl e \<Rightarrow> (Inl e, fs)
               | Inr (rows', out, changed) \<Rightarrow>
                   (Inr out, if changed then overwrite_jsonl fs path rows' else fs)))"

section \<open>Quantities of the specification and example objects\<close>

text \<open>The magnitude of the throw velocity.\<close>

definition speed :: "pet \<Rightarrow> real" where
  "speed p = sqrt ((vx p)\<^sup>2 + (vy p)\<^sup>2)"

text \<open>
  The effect of lines 194-195 (and 198-199) on the current state:
  \<^verbatim>\<open>if self.state.name != "walldig": self.state.direction *= -1\<close>.
\<close>

definition turned :: "state \<Rightarrow> state" where
  "turned st = (if name st \<noteq> ''walldig'' then st\<lparr>direction := direction st * (- 1)\<rparr> else st)"

text \<open>The bounding box of the agent lies within the screen rectangle.\<close>

definition on_screen :: "pet \<Rightarrow> bool" where
  "on_screen p \<longleftrightarrow>
     0 \<le> x p \<and> x p \<le> real_of_int (screen_width p - width p) \<and>
     0 \<le> y p \<and> y p \<le> real_of_int (screen_height p - height p)"

text \<open>The catalogue has an entry for the species with a state table for the colour.\<close>

definition has_variant :: "pets_data \<Rightarrow> string \<Rightarrow> string \<Rightarrow> bool" where
  "has_variant data sp col \<longleftrightarrow>
     (case data sp of
        None \<Rightarrow> False
      | Some sd \<Rightarrow> (case sd_states sd of None \<Rightarrow> False | Some by_color \<Rightarrow> by_color col \<noteq> None))"


text \<open>
  A value on which line 91 does not raise: a string, or a falsy value that
  \<^verbatim>\<open>or ""\<close> replaces by the empty string.
\<close>

definition is_text :: "json \<Rightarrow> bool" where
  "is_text v \<longleftrightarrow> (case v of JStr s \<Rightarrow> True | _ \<Rightarrow> \<not> truthy v)"

text \<open>
  A row as \<^verbatim>\<open>send_message\<close> writes it, as far as \<^verbatim>\<open>fetch_undelivered\<close> looks: a JSON
  object whose \<^verbatim>\<open>"text"\<close>, if present, is such a value.
\<close>

definition message_row :: "json \<Rightarrow> bool" where
  "message_row r \<longleftrightarrow>
     (case r of
        JObj kvs \<Rightarrow> (case map_of kvs ''text'' of None \<Rightarrow> True | Some v \<Rightarrow> is_text v)
      | _ \<Rightarrow> False)"





text \<open>A run of ticks: the pet after the last one and the number of callback invocations.\<close>

fun run_ticks :: "deps \<Rightarrow> tick_input list \<Rightarrow> pet \<Rightarrow> pet \<times> nat" where
  "run_ticks d [] p = (p, 0)"
| "run_ticks d (i # inputs) p =
     (case run_ticks d inputs (pet_after (update_state d i p)) of
        (q, n) \<Rightarrow> (q, check_messages_calls (update_state d i p) + n))"

text \<open>
  The helpers that are not among the sources leave \<^verbatim>\<open>_right_click_consumed\<close> alone
  (no source file other than \<^verbatim>\<open>pets.py\<close> mentions the attribute).
\<close>

definition helpers_keep_consumed :: "deps \<Rightarrow> bool" where
  "helpers_keep_consumed d \<longleftrightarrow>
     (\<forall>p. right_click_consumed (snd (state_next d p)) = right_click_consumed p)
   \<and> (\<forall>p. right_click_consumed (squirrel_climb d p) = right_click_consumed p)
   \<and> (\<forall>p. right_click_consumed (snd (go_climb d p)) = right_click_consumed p)"

text \<open>A small configuration: one species with one colour and three states.\<close>

definition example_data :: pets_data where
  "example_data =
     [''cat'' \<mapsto>
        \<lparr>sd_states = Some [''black'' \<mapsto>
            [(''idle'', ''media/cat/black_idle_8fps.gif''),
             (''lie'', ''media/cat/black_lie_8fps.gif''),
             (''with_ball'', ''media/cat/black_with_ball_8fps.gif'')]],
         sd_defaults = Some [''idle'' \<mapsto>
            \<lparr>d_hold = Some 8, d_movement_speed = Some 0, d_speed_animation = Some 0.5\<rparr>]\<rparr>]"

text \<open>
  Collaborators for the examples: every gif has two frames of 64 by 32 pixels,
  \<^verbatim>\<open>State.next\<close> reports an unfinished cycle and the climb helpers leave the pet as it is.
\<close>

definition example_deps :: deps where
  "example_deps =
     \<lparr>PETS_DATA = example_data,
      load_gif_frames = (\<lambda>g. Some [(64, 32), (64, 32)]),
      state_next = (\<lambda>p. (Inr False, p)),
      squirrel_climb = (\<lambda>p. p),
      go_climb = (\<lambda>p. (None, p)),
      default_direction = 1,
      initial_counter = 0\<rparr>"

definition example_state :: state where
  "example_state =
     \<lparr>name = ''idle'', gif = ''media/cat/black_idle_8fps.gif'', hold = 8, movement_speed = 0,
      speed_animation = 0.5, direction = 1, counter = 3\<rparr>"

text \<open>A cat of size \<^verbatim>\<open>small\<close> resting at the bottom right of a 1920 by 1080 screen.\<close>

definition example_pet :: pet where
  "example_pet =
     \<lparr>species = ''cat'', color = ''black'', fps = 8, size_str = ''small'',
      screen_width = 1920, screen_height = 1080, width = 80, height = 40,
      x = 1840, y = 1040, y_def = 1040,
      frames = [(80, 40), (80, 40)], frame_count = 2, current_frame = 0,
      frame_interval = Some 0.25,
      dragging = False, drag_offset = (0, 0), drag_last_pos = None,
      throw_velocity = (0, 0), right_click_consumed = False,
      STATES_INFO =
        [(''idle'', \<lparr>info_gif = ''media/cat/black_idle_8fps.gif'', info_hold = 8,
                     info_movement_speed = 0, info_speed_animation = 0.5\<rparr>),
         (''lie'', \<lparr>info_gif = ''media/cat/black_lie_8fps.gif'', info_hold = 8,
                    info_movement_speed = 0, info_speed_animation = 1\<rparr>),
         (''with_ball'', \<lparr>info_gif = ''media/cat/black_with_ball_8fps.gif'', info_hold = 8,
                          info_movement_speed = 0, info_speed_animation = 1\<rparr>)],
      state = Some example_state,
      immunity = False, lie_duration = 24, wall_scene_step = None,
      scene_wallclimb = False, height_lie = 20, has_main_window = True\<rparr>"

text \<open>The pointer rests inside the example pet's bounding box, no button pressed.\<close>

definition example_input :: tick_input where
  "example_input =
     \<lparr>mouse_x = 1850, mouse_y = 1050, left_down = False, right_down = False,
      rnd_name = 0, rnd_direction = 0\<rparr>"

text \<open>The example pet in the middle of a drag that grabbed it at offset \<open>(10, 10)\<close>.\<close>

definition dragged_pet :: pet where
  "dragged_pet =
     example_pet\<lparr>dragging := True, drag_offset := (10, 10),
                 drag_last_pos := Some (1850, 1050), throw_velocity := (- 50, - 40)\<rparr>"

text \<open>The pointer on the origin of the example pet, no button pressed.\<close>

definition near_input :: tick_input where
  "near_input = example_input\<lparr>mouse_x := 1840, mouse_y := 1040\<rparr>"

text \<open>
  The example configuration without the \<^verbatim>\<open>"defaults"\<close> table, which the constructor
  tolerates (\<^verbatim>\<open>species_data.get("defaults", {})\<close>).
\<close>

definition data_without_defaults :: pets_data where
  "data_without_defaults =
     [''cat'' \<mapsto>
        \<lparr>sd_states = Some [''black'' \<mapsto>
            [(''idle'', ''media/cat/black_idle_8fps.gif''),
             (''lie'', ''media/cat/black_lie_8fps.gif''),
             (''with_ball'', ''media/cat/black_with_ball_8fps.gif'')]],
         sd_defaults = None\<rparr>]"

text \<open>The example configuration with a colour that has no \<^verbatim>\<open>lie\<close> state.\<close>

definition data_without_lie :: pets_data where
  "data_without_lie =
     [''cat'' \<mapsto>
        \<lparr>sd_states = Some [''black'' \<mapsto>
            [(''idle'', ''media/cat/black_idle_8fps.gif''),
             (''with_ball'', ''media/cat/black_with_ball_8fps.gif'')]],
         sd_defaults = Some Map.empty\<rparr>]"

text \<open>
  An agent wider than a quarter of its screen, resting where the constructor puts it
  (\<open>x = screen_width - width\<close>).
\<close>

definition wide_pet :: pet where
  "wide_pet =
     example_pet\<lparr>screen_width := 1366, width := 400, x := 966, size_str := ''really big'',
                 height := 200, y := 880\<rparr>"

text \<open>
  The example pet at size \<^verbatim>\<open>original\<close>, standing on the bottom edge of the screen, and
  collaborators whose \<^verbatim>\<open>lie\<close> gif is 48 pixels high while the other gifs are 32.
\<close>

definition original_pet :: pet where
  "original_pet =
     example_pet\<lparr>size_str := ''original'', width := 64, height := 32, x := 1856, y := 1048,
                 y_def := 1048, frames := [(64, 32), (64, 32)]\<rparr>"

definition tall_lie_deps :: deps where
  "tall_lie_deps =
     example_deps\<lparr>load_gif_frames :=
       (\<lambda>g. if g = ''media/cat/black_lie_8fps.gif'' then Some [(64, 48), (64, 48)]
            else Some [(64, 32), (64, 32)])\<rparr>"

definition original_input :: tick_input where
  "original_input = example_input\<lparr>mouse_x := 1856, mouse_y := 1048\<rparr>"

text \<open>A 1920 by 1080 screen with a 40 pixel taskbar at the bottom.\<close>

definition example_env :: init_env where
  "example_env =
     \<lparr>sys_screen_width = 1920, sys_screen_height = 1080, taskbar_height = 40,
      taskbar_autohide = False, taskbar_edge = 3, init_rnd_name = 0, init_rnd_direction = 1\<rparr>"



section \<open>Throw physics: damping\<close>

lemma x_throw_move: "x (throw_move p) = x p + vx p"
  by (simp add: throw_move_def Let_def vy_def vx_def set_vx_def set_vy_def)

lemma y_throw_move: "y (throw_move p) = y p + vy p"
  by (simp add: throw_move_def Let_def vy_def vx_def set_vx_def set_vy_def)

lemma vx_throw_move: "vx (throw_move p) = vx p * 0.85"
  by (simp add: throw_move_def Let_def vy_def vx_def set_vx_def set_vy_def)

lemma vy_throw_move: "vy (throw_move p) = vy p * 0.85"
  by (simp add: throw_move_def Let_def vy_def vx_def set_vx_def set_vy_def)

lemma dims_throw_move:
  "screen_width (throw_move p) = screen_width p" "width (throw_move p) = width p"
  "screen_height (throw_move p) = screen_height p" "height (throw_move p) = height p"
  by (simp_all add: throw_move_def Let_def vy_def vx_def set_vx_def set_vy_def)

lemma vy_throw_bounce_zero: "vy p = 0 \<Longrightarrow> vy (throw_bounce p) = 0"
  by (simp add: throw_bounce_def Let_def vy_def vx_def set_vx_def set_vy_def)

lemma vx_throw_bounce_cases:
  "vx (throw_bounce p) = vx p \<or> vx (throw_bounce p) = - vx p * 0.6
     \<or> vx (throw_bounce p) = vx p * 0.6 * 0.6"
  by (simp add: throw_bounce_def Let_def vy_def vx_def set_vx_def set_vy_def)

lemma abs_vx_throw_bounce: "\<bar>vx (throw_bounce p)\<bar> \<le> \<bar>vx p\<bar>"
  using vx_throw_bounce_cases [of p] by (auto simp: abs_mult)

lemma apply_throw_vy_zero: "vy p = 0 \<Longrightarrow> vy (snd (apply_throw p)) = 0"
  by (simp add: apply_throw_def vy_throw_bounce_zero vy_throw_move) (simp add: vy_def)

lemma apply_throw_vx_le: "\<bar>vx (snd (apply_throw p))\<bar> \<le> 0.85 * \<bar>vx p\<bar>"
proof (cases "\<bar>vx p\<bar> < 0.2 \<and> \<bar>vy p\<bar> < 0.2")
  case True
  then show ?thesis by (simp add: apply_throw_def vx_def)
next
  case False
  have "\<bar>vx (throw_bounce (throw_move p))\<bar> \<le> \<bar>vx (throw_move p)\<bar>"
    by (rule abs_vx_throw_bounce)
  also have "\<dots> = 0.85 * \<bar>vx p\<bar>" by (simp add: vx_throw_move abs_mult)
  finally show ?thesis using False by (auto simp: apply_throw_def)
qed

lemma throw_steps_vy_zero: "vy p = 0 \<Longrightarrow> vy (throw_steps n p) = 0"
  by (induction n arbitrary: p) (simp_all add: apply_throw_vy_zero)

lemma throw_steps_vx_le: "\<bar>vx (throw_steps n p)\<bar> \<le> 0.85 ^ n * \<bar>vx p\<bar>"
proof (induction n arbitrary: p)
  case 0
  then show ?case by simp
next
  case (Suc n)
  have "\<bar>vx (throw_steps n (snd (apply_throw p)))\<bar> \<le> 0.85 ^ n * \<bar>vx (snd (apply_throw p))\<bar>"
    by (rule Suc.IH)
  also have "\<dots> \<le> 0.85 ^ n * (0.85 * \<bar>vx p\<bar>)"
    by (rule mult_left_mono [OF apply_throw_vx_le]) simp
  finally show ?case by simp
qed

lemma throw_steps_Suc: "throw_steps (Suc n) p = snd (apply_throw (throw_steps n p))"
  by (induction n arbitrary: p) simp_all

lemma speed_vy_zero: "vy p = 0 \<Longrightarrow> speed p = \<bar>vx p\<bar>"
  by (simp add: speed_def)

lemma apply_throw_stop:
  "\<bar>vx p\<bar> < 0.2 \<Longrightarrow> \<bar>vy p\<bar> < 0.2 \<Longrightarrow> apply_throw p = (False, p\<lparr>throw_velocity := (0, 0)\<rparr>)"
  by (simp add: apply_throw_def)

text \<open>The bound of the specification is 25 ticks: \<open>0.85\<^sup>2\<^sup>5 < 0.02 < 0.85\<^sup>2\<^sup>4\<close>.\<close>

lemma throw_tick_bound_eq: "throw_tick_bound = 25"
proof -
  have neg: "ln (0.85::real) < 0" by simp
  have a: "(0.85::real) ^ 25 < 0.2 / 10" by (simp add: power_divide)
  have b: "(0.2 / 10 :: real) < 0.85 ^ 24" by (simp add: power_divide)
  have "ln ((0.85::real) ^ 25) < ln (0.2 / 10)"
    using a by (subst ln_less_cancel_iff) simp_all
  then have a': "25 * ln (0.85::real) < ln (0.2 / 10)" by (simp add: ln_realpow)
  have "ln (0.2 / 10) < ln ((0.85::real) ^ 24)"
    using b by (subst ln_less_cancel_iff) simp_all
  then have b': "ln (0.2 / 10) < 24 * ln (0.85::real)" by (simp add: ln_realpow)
  have u: "ln (0.2 / 10) / ln (0.85 :: real) < 25" using a' neg by (simp add: divide_less_eq)
  have l: "24 < ln (0.2 / 10) / ln (0.85 :: real)" using b' neg by (simp add: less_divide_eq)
  have "\<lceil>ln (0.2 / 10) / ln (0.85 :: real)\<rceil> = 25" using u l by (simp add: ceiling_eq_iff)
  then show ?thesis by (simp add: throw_tick_bound_def)
qed

text \<open>
  Claim C3. A throw that starts with velocity \<open>(10, 0)\<close> and receives no further input:
  the magnitude of the velocity strictly decreases at every step as long as it is not
  zero; from step \<open>\<lceil>log(0.2/10) / log(0.85)\<rceil>\<close> on, both components are below 0.2 in
  magnitude; and a step that finds both components below 0.2 sets the velocity to exactly
  \<open>(0, 0)\<close>, reports the throw as over and moves nothing.
\<close>

theorem throw_from_ten_decays:
  assumes start: "throw_velocity p = (10, 0)"
  shows "(\<forall>n. 0 < speed (throw_steps n p) \<longrightarrow>
             speed (throw_steps (Suc n) p) < speed (throw_steps n p))
       \<and> (\<forall>n \<ge> throw_tick_bound.
             \<bar>vx (throw_steps n p)\<bar> < 0.2 \<and> \<bar>vy (throw_steps n p)\<bar> < 0.2)
       \<and> (\<forall>n. \<bar>vx (throw_steps n p)\<bar> < 0.2 \<and> \<bar>vy (throw_steps n p)\<bar> < 0.2 \<longrightarrow>
             apply_throw (throw_steps n p)
               = (False, (throw_steps n p)\<lparr>throw_velocity := (0, 0)\<rparr>))"
proof (intro conjI allI impI)
  have vy0: "vy p = 0" and vx10: "vx p = 10" using start by (simp_all add: vx_def vy_def)
  have vyn: "vy (throw_steps n p) = 0" for n using vy0 by (rule throw_steps_vy_zero)
  { fix n assume pos: "0 < speed (throw_steps n p)"
    let ?q = "throw_steps n p"
    have "speed (throw_steps (Suc n) p) = \<bar>vx (snd (apply_throw ?q))\<bar>"
      using vyn [of "Suc n"] by (simp add: speed_vy_zero throw_steps_Suc del: throw_steps.simps)
    also have "\<dots> \<le> 0.85 * \<bar>vx ?q\<bar>" by (rule apply_throw_vx_le)
    also have "\<dots> < \<bar>vx ?q\<bar>" using pos vyn [of n] by (simp add: speed_vy_zero)
    also have "\<dots> = speed ?q" using vyn [of n] by (simp add: speed_vy_zero)
    finally show "speed (throw_steps (Suc n) p) < speed (throw_steps n p)" . }
  { fix n assume n: "throw_tick_bound \<le> n"
    have "\<bar>vx (throw_steps n p)\<bar> \<le> 0.85 ^ n * \<bar>vx p\<bar>" by (rule throw_steps_vx_le)
    also have "\<dots> \<le> 0.85 ^ 25 * \<bar>vx p\<bar>"
      using n by (intro mult_right_mono power_decreasing) (simp_all add: throw_tick_bound_eq)
    also have "\<dots> < 0.2" by (simp add: vx10 power_divide)
    finally show "\<bar>vx (throw_steps n p)\<bar> < 0.2" .
    show "\<bar>vy (throw_steps n p)\<bar> < 0.2" by (simp add: vyn) }
  { fix n assume "\<bar>vx (throw_steps n p)\<bar> < 0.2 \<and> \<bar>vy (throw_steps n p)\<bar> < 0.2"
    then show "apply_throw (throw_steps n p)
        = (False, (throw_steps n p)\<lparr>throw_velocity := (0, 0)\<rparr>)"
      by (simp add: apply_throw_stop) }
qed

theorem throw_from_ten_decays_witness:
  "throw_velocity (example_pet\<lparr>throw_velocity := (10, 0)\<rparr>) = (10, 0)
   \<and> 0 < speed (throw_steps 0 (example_pet\<lparr>throw_velocity := (10, 0)\<rparr>))
   \<and> speed (throw_steps (Suc 0) (example_pet\<lparr>throw_velocity := (10, 0)\<rparr>))
       < speed (throw_steps 0 (example_pet\<lparr>throw_velocity := (10, 0)\<rparr>))
   \<and> throw_tick_bound \<le> 25
   \<and> \<bar>vx (throw_steps 25 (example_pet\<lparr>throw_velocity := (10, 0)\<rparr>))\<bar> < 0.2
   \<and> \<bar>vy (throw_steps 25 (example_pet\<lparr>throw_velocity := (10, 0)\<rparr>))\<bar> < 0.2
   \<and> apply_throw (throw_steps 25 (example_pet\<lparr>throw_velocity := (10, 0)\<rparr>))
       = (False, (throw_steps 25 (example_pet\<lparr>throw_velocity := (10, 0)\<rparr>))
                   \<lparr>throw_velocity := (0, 0)\<rparr>)"
proof -
  let ?p = "example_pet\<lparr>throw_velocity := (10, 0)\<rparr>"
  have start: "throw_velocity ?p = (10, 0)" by simp
  have pos: "0 < speed (throw_steps 0 ?p)" by (simp add: speed_def vx_def vy_def)
  have b: "throw_tick_bound \<le> 25" by (simp add: throw_tick_bound_eq)
  note main = throw_from_ten_decays [OF start]
  show ?thesis using main pos b start by blast
qed

section \<open>Throw physics: bouncing\<close>

lemma throw_bounce_x_low:
  "0 \<le> screen_width p - width p \<Longrightarrow> x p < 0 \<Longrightarrow>
     x (throw_bounce p) = 0 \<and> vx (throw_bounce p) = - 0.6 * vx p"
  by (simp add: throw_bounce_def Let_def vy_def vx_def set_vx_def set_vy_def)

lemma throw_bounce_x_high:
  "0 \<le> screen_width p - width p \<Longrightarrow> x p > real_of_int (screen_width p - width p) \<Longrightarrow>
     x (throw_bounce p) = real_of_int (screen_width p - width p)
     \<and> vx (throw_bounce p) = - 0.6 * vx p"
  by (simp add: throw_bounce_def Let_def vy_def vx_def set_vx_def set_vy_def)

lemma throw_bounce_y_low:
  "0 \<le> screen_height p - height p \<Longrightarrow> y p < 0 \<Longrightarrow>
     y (throw_bounce p) = 0 \<and> vy (throw_bounce p) = - 0.6 * vy p"
  by (simp add: throw_bounce_def Let_def vy_def vx_def set_vx_def set_vy_def)

lemma throw_bounce_y_high:
  "0 \<le> screen_height p - height p \<Longrightarrow> y p > real_of_int (screen_height p - height p) \<Longrightarrow>
     y (throw_bounce p) = real_of_int (screen_height p - height p)
     \<and> vy (throw_bounce p) = - 0.6 * vy p"
  by (simp add: throw_bounce_def Let_def vy_def vx_def set_vx_def set_vy_def)

text \<open>
  Claim C4. In a throw step of an agent that fits on the screen, when the moved
  x-position falls below 0 or above \<open>screen_width - width\<close>, the step leaves x at exactly
  that boundary and the x-velocity at exactly \<open>-0.6\<close> times the value it has at that
  moment, which is the damped value \<open>0.85 * vx\<close>; likewise for y against
  \<open>screen_height - height\<close>.
\<close>

theorem throw_bounce_exact:
  assumes fit_x: "0 \<le> screen_width p - width p"
    and fit_y: "0 \<le> screen_height p - height p"
    and active: "fst (apply_throw p)"
  shows "(x p + vx p < 0 \<longrightarrow>
            x (snd (apply_throw p)) = 0 \<and> vx (snd (apply_throw p)) = - 0.6 * (vx p * 0.85))
       \<and> (x p + vx p > real_of_int (screen_width p - width p) \<longrightarrow>
            x (snd (apply_throw p)) = real_of_int (screen_width p - width p)
            \<and> vx (snd (apply_throw p)) = - 0.6 * (vx p * 0.85))
       \<and> (y p + vy p < 0 \<longrightarrow>
            y (snd (apply_throw p)) = 0 \<and> vy (snd (apply_throw p)) = - 0.6 * (vy p * 0.85))
       \<and> (y p + vy p > real_of_int (screen_height p - height p) \<longrightarrow>
            y (snd (apply_throw p)) = real_of_int (screen_height p - height p)
            \<and> vy (snd (apply_throw p)) = - 0.6 * (vy p * 0.85))"
proof -
  let ?m = "throw_move p"
  have res: "snd (apply_throw p) = throw_bounce ?m"
    using active by (auto simp: apply_throw_def split: if_splits)
  have fx: "0 \<le> screen_width ?m - width ?m" and fy: "0 \<le> screen_height ?m - height ?m"
    using fit_x fit_y by (simp_all add: dims_throw_move)
  have a: "x p + vx p < 0 \<Longrightarrow>
      x (throw_bounce ?m) = 0 \<and> vx (throw_bounce ?m) = - 0.6 * (vx p * 0.85)"
    using throw_bounce_x_low [OF fx] by (simp add: x_throw_move vx_throw_move)
  have b: "x p + vx p > real_of_int (screen_width p - width p) \<Longrightarrow>
      x (throw_bounce ?m) = real_of_int (screen_width p - width p)
      \<and> vx (throw_bounce ?m) = - 0.6 * (vx p * 0.85)"
    using throw_bounce_x_high [OF fx] by (simp add: x_throw_move vx_throw_move dims_throw_move)
  have c: "y p + vy p < 0 \<Longrightarrow>
      y (throw_bounce ?m) = 0 \<and> vy (throw_bounce ?m) = - 0.6 * (vy p * 0.85)"
    using throw_bounce_y_low [OF fy] by (simp add: y_throw_move vy_throw_move)
  have d: "y p + vy p > real_of_int (screen_height p - height p) \<Longrightarrow>
      y (throw_bounce ?m) = real_of_int (screen_height p - height p)
      \<and> vy (throw_bounce ?m) = - 0.6 * (vy p * 0.85)"
    using throw_bounce_y_high [OF fy] by (simp add: y_throw_move vy_throw_move dims_throw_move)
  show ?thesis unfolding res using a b c d by blast
qed

theorem throw_bounce_exact_witness:
  "0 \<le> screen_width example_pet - width example_pet
   \<and> 0 \<le> screen_height example_pet - height example_pet
   \<and> fst (apply_throw (example_pet\<lparr>x := 5, y := 3, throw_velocity := (- 20, - 10)\<rparr>))
   \<and> x (snd (apply_throw (example_pet\<lparr>x := 5, y := 3, throw_velocity := (- 20, - 10)\<rparr>))) = 0
   \<and> vx (snd (apply_throw (example_pet\<lparr>x := 5, y := 3, throw_velocity := (- 20, - 10)\<rparr>))) = 10.2
   \<and> y (snd (apply_throw (example_pet\<lparr>x := 5, y := 3, throw_velocity := (- 20, - 10)\<rparr>))) = 0
   \<and> vy (snd (apply_throw (example_pet\<lparr>x := 5, y := 3, throw_velocity := (- 20, - 10)\<rparr>))) = 5.1
   \<and> fst (apply_throw (example_pet\<lparr>throw_velocity := (20, 10)\<rparr>))
   \<and> x (snd (apply_throw (example_pet\<lparr>throw_velocity := (20, 10)\<rparr>))) = 1840
   \<and> vx (snd (apply_throw (example_pet\<lparr>throw_velocity := (20, 10)\<rparr>))) = - 10.2
   \<and> y (snd (apply_throw (example_pet\<lparr>throw_velocity := (20, 10)\<rparr>))) = 1040
   \<and> vy (snd (apply_throw (example_pet\<lparr>throw_velocity := (20, 10)\<rparr>))) = - 5.1"
proof -
  let ?lo = "example_pet\<lparr>x := 5, y := 3, throw_velocity := (- 20, - 10)\<rparr>"
  let ?hi = "example_pet\<lparr>throw_velocity := (20, 10)\<rparr>"
  have fit: "0 \<le> screen_width example_pet - width example_pet"
    "0 \<le> screen_height example_pet - height example_pet"
    by (simp_all add: example_pet_def)
  have lo_fit: "0 \<le> screen_width ?lo - width ?lo" "0 \<le> screen_height ?lo - height ?lo"
    and hi_fit: "0 \<le> screen_width ?hi - width ?hi" "0 \<le> screen_height ?hi - height ?hi"
    by (simp_all add: example_pet_def)
  have lo_act: "fst (apply_throw ?lo)" and hi_act: "fst (apply_throw ?hi)"
    by (simp_all add: apply_throw_def vx_def vy_def)
  have lo: "x ?lo + vx ?lo < 0" "y ?lo + vy ?lo < 0"
    by (simp_all add: vx_def vy_def)
  have hi: "x ?hi + vx ?hi > real_of_int (screen_width ?hi - width ?hi)"
    "y ?hi + vy ?hi > real_of_int (screen_height ?hi - height ?hi)"
    by (simp_all add: vx_def vy_def example_pet_def)
  show ?thesis
    using throw_bounce_exact [OF lo_fit lo_act] throw_bounce_exact [OF hi_fit hi_act] lo hi fit lo_act hi_act
    by (simp add: vx_def vy_def example_pet_def)
qed

section \<open>Random state selection\<close>

lemma remove_exceptions_distinct:
  "distinct keys \<Longrightarrow> distinct (remove_exceptions exs keys)"
  by (induction exs arbitrary: keys) simp_all

lemma set_remove_exceptions:
  "distinct keys \<Longrightarrow> set (remove_exceptions exs keys) = set keys - set exs"
proof (induction exs arbitrary: keys)
  case Nil
  then show ?case by simp
next
  case (Cons ex exs)
  show ?case
  proof (cases "ex \<in> set keys")
    case True
    have "set (remove_exceptions exs (remove1 ex keys)) = set (remove1 ex keys) - set exs"
      using Cons.prems by (intro Cons.IH) simp
    also have "\<dots> = set keys - set (ex # exs)"
      using Cons.prems by (auto simp: set_remove1_eq)
    finally show ?thesis using True by simp
  next
    case False
    then show ?thesis using Cons.IH [OF Cons.prems] by auto
  qed
qed

lemma random_choice_member:
  "xs \<noteq> [] \<Longrightarrow> \<exists>v. random_choice r xs = Inr v \<and> v \<in> set xs"
  by (simp add: random_choice_def)

lemma remove_exceptions_Nil: "remove_exceptions exs [] = []"
  by (induction exs) simp_all

lemma random_state_empty: "random_state d r1 r2 [] exc = None"
  by (simp add: random_state_def random_state_body_def random_choice_def remove_exceptions_Nil)

text \<open>
  Claim C2. On a non-empty catalogue (a dictionary, so its keys are distinct),
  \<^verbatim>\<open>random_state\<close> returns a state for every exclusion argument and every outcome of the
  two random draws; the state is an entry of the catalogue, and its name is outside the
  exclusion list unless the exclusion list covers every key of the catalogue.
\<close>

theorem random_state_respects_exclusion:
  assumes nonempty: "infos \<noteq> []"
    and keys: "distinct (map fst infos)"
  shows "\<exists>st info. random_state d r1 r2 infos exc = Some st
           \<and> (name st, info) \<in> set infos
           \<and> gif st = info_gif info \<and> hold st = info_hold info
           \<and> movement_speed st = info_movement_speed info
           \<and> speed_animation st = info_speed_animation info
           \<and> (direction st = - 1 \<or> direction st = 1)
           \<and> (\<not> set (map fst infos) \<subseteq> set (exception_names exc)
                \<longrightarrow> name st \<notin> set (exception_names exc))"
proof -
  let ?keys = "map fst infos"
  let ?keys1 = "remove_exceptions (exception_names exc) ?keys"
  let ?keys2 = "if ?keys1 = [] then ?keys else ?keys1"
  have s1: "set ?keys1 = set ?keys - set (exception_names exc)"
    using keys by (rule set_remove_exceptions)
  have ne2: "?keys2 \<noteq> []" using nonempty by simp
  obtain nm where nm: "random_choice r1 ?keys2 = Inr nm" "nm \<in> set ?keys2"
    using random_choice_member [OF ne2] by blast
  have nm_key: "nm \<in> set ?keys" using nm(2) s1 by (auto split: if_splits)
  then obtain info where info: "map_of infos nm = Some info"
    by (metis map_of_eq_None_iff not_Some_eq set_map)
  have mem: "(nm, info) \<in> set infos" using info by (rule map_of_SomeD)
  obtain dir where dir: "random_choice r2 [- 1, 1 :: int] = Inr dir" "dir \<in> set [- 1, 1 :: int]"
    using random_choice_member [of "[- 1, 1 :: int]" r2] by blast
  let ?st = "State d nm (info_gif info) (info_hold info) (info_movement_speed info)
               (info_speed_animation info) (Some dir)"
  have res: "random_state d r1 r2 infos exc = Some ?st"
    using nm(1) info dir(1) by (simp add: random_state_def random_state_body_def Let_def)
  have excl: "\<not> set ?keys \<subseteq> set (exception_names exc) \<longrightarrow> nm \<notin> set (exception_names exc)"
  proof
    assume "\<not> set ?keys \<subseteq> set (exception_names exc)"
    then have "?keys1 \<noteq> []" using s1 by auto
    then have "nm \<in> set ?keys1" using nm(2) by simp
    then show "nm \<notin> set (exception_names exc)" using s1 by simp
  qed
  show ?thesis
    apply (rule exI [of _ ?st], rule exI [of _ info])
    using res mem dir(2) excl by (auto simp: State_def)
qed

theorem random_state_respects_exclusion_witness:
  "STATES_INFO example_pet \<noteq> [] \<and> distinct (map fst (STATES_INFO example_pet))
   \<and> \<not> set (map fst (STATES_INFO example_pet)) \<subseteq> set (exception_names standing_exclusion)
   \<and> (\<exists>st. random_state example_deps 5 0 (STATES_INFO example_pet) standing_exclusion = Some st
         \<and> name st \<notin> set (exception_names standing_exclusion))"
proof -
  have a: "STATES_INFO example_pet \<noteq> []" by (simp add: example_pet_def)
  have b: "distinct (map fst (STATES_INFO example_pet))" by (simp add: example_pet_def)
  have c: "\<not> set (map fst (STATES_INFO example_pet)) \<subseteq> set (exception_names standing_exclusion)"
    by (simp add: example_pet_def standing_exclusion_def)
  show ?thesis
    using random_state_respects_exclusion [OF a b, of example_deps 5 0 standing_exclusion] a b c
    by blast
qed

section \<open>Dragging\<close>

lemma right_click_phase_pet:
  "fst (right_click_phase i inb p)
     = p\<lparr>right_click_consumed := right_down i \<and> (right_click_consumed p \<or> inb)\<rparr>"
  by (cases p) (auto simp: right_click_phase_def Let_def)

lemma right_click_phase_calls:
  "snd (right_click_phase i inb p)
     = (if right_down i \<and> inb \<and> \<not> right_click_consumed p \<and> has_main_window p then 1 else 0)"
  by (simp add: right_click_phase_def Let_def)

lemma update_state_unfold:
  "update_state d i p =
     \<lparr>pet_after = fst (drag_phase d i (drag_begin i (in_bounds i p) (fst (right_click_phase i (in_bounds i p) p)))),
      exit_taken = snd (drag_phase d i (drag_begin i (in_bounds i p) (fst (right_click_phase i (in_bounds i p) p)))),
      check_messages_calls = snd (right_click_phase i (in_bounds i p) p)\<rparr>"
  by (simp add: update_state_def Let_def split_beta)

text \<open>
  Claim C6. A tick with the primary button down and the pointer inside the bounding box
  of an agent that is not being dragged begins a drag: it records the offset between
  pointer and agent origin and the pointer position, and the throw velocity is exactly
  \<open>(0, 0)\<close>. A tick of an ongoing drag puts the agent at pointer minus offset, clamped by
  \<^verbatim>\<open>max(0, min(_, screen - size))\<close>, and records the pointer delta since the previous
  tick as throw velocity. A tick that finds the button released ends the drag, and the
  throw step of that tick starts from exactly 1.5 times the recorded velocity on each axis.
\<close>

theorem drag_lifecycle:
  "(left_down i \<and> in_bounds i p \<and> \<not> dragging p \<longrightarrow>
      exit_taken (update_state d i p) = Drag_return
      \<and> dragging (pet_after (update_state d i p))
      \<and> drag_offset (pet_after (update_state d i p))
          = (real_of_int (mouse_x i) - x p, real_of_int (mouse_y i) - y p)
      \<and> drag_last_pos (pet_after (update_state d i p)) = Some (mouse_x i, mouse_y i)
      \<and> throw_velocity (pet_after (update_state d i p)) = (0, 0))
 \<and> (left_down i \<and> dragging p \<longrightarrow>
      exit_taken (update_state d i p) = Drag_return
      \<and> x (pet_after (update_state d i p))
          = max 0 (min (real_of_int (mouse_x i) - fst (drag_offset p))
                       (real_of_int (screen_width p - width p)))
      \<and> y (pet_after (update_state d i p))
          = max 0 (min (real_of_int (mouse_y i) - snd (drag_offset p))
                       (real_of_int (screen_height p - height p)))
      \<and> drag_last_pos (pet_after (update_state d i p)) = Some (mouse_x i, mouse_y i)
      \<and> (\<forall>last_x last_y. drag_last_pos p = Some (last_x, last_y) \<longrightarrow>
            throw_velocity (pet_after (update_state d i p))
              = (real_of_int (mouse_x i - last_x), real_of_int (mouse_y i - last_y))))
 \<and> (\<not> left_down i \<and> dragging p \<longrightarrow>
      throw_velocity (drag_release (fst (right_click_phase i (in_bounds i p) p)))
          = (fst (throw_velocity p) * 1.5, snd (throw_velocity p) * 1.5)
      \<and> \<not> dragging (drag_release (fst (right_click_phase i (in_bounds i p) p)))
      \<and> (pet_after (update_state d i p), exit_taken (update_state d i p))
          = after_drag d i (drag_release (fst (right_click_phase i (in_bounds i p) p))))"
proof (intro conjI impI)
  let ?r = "fst (right_click_phase i (in_bounds i p) p)"
  { assume h: "left_down i \<and> in_bounds i p \<and> \<not> dragging p"
    let ?q = "pet_after (update_state d i p)"
    have q: "?q = drag_track i (drag_begin i True ?r)"
      using h by (simp add: update_state_unfold drag_phase_def drag_begin_def right_click_phase_pet)
    show "exit_taken (update_state d i p) = Drag_return"
      using h by (simp add: update_state_unfold drag_phase_def drag_begin_def right_click_phase_pet)
    show "dragging ?q" unfolding q using h
      by (simp add: drag_track_def drag_begin_def right_click_phase_pet Let_def)
    show "drag_offset ?q = (real_of_int (mouse_x i) - x p, real_of_int (mouse_y i) - y p)"
      unfolding q using h
      by (simp add: drag_track_def drag_begin_def right_click_phase_pet Let_def)
    show "drag_last_pos ?q = Some (mouse_x i, mouse_y i)" unfolding q using h
      by (simp add: drag_track_def drag_begin_def right_click_phase_pet Let_def)
    show "throw_velocity ?q = (0, 0)" unfolding q using h
      by (simp add: drag_track_def drag_begin_def right_click_phase_pet Let_def) }
  { assume h: "left_down i \<and> dragging p"
    let ?q = "pet_after (update_state d i p)"
    have q: "?q = drag_track i ?r"
      using h by (simp add: update_state_unfold drag_phase_def drag_begin_def right_click_phase_pet)
    show "exit_taken (update_state d i p) = Drag_return"
      using h by (simp add: update_state_unfold drag_phase_def drag_begin_def right_click_phase_pet)
    show "x ?q = max 0 (min (real_of_int (mouse_x i) - fst (drag_offset p))
                       (real_of_int (screen_width p - width p)))"
      unfolding q by (simp add: drag_track_def right_click_phase_pet Let_def split: option.splits)
    show "y ?q = max 0 (min (real_of_int (mouse_y i) - snd (drag_offset p))
                       (real_of_int (screen_height p - height p)))"
      unfolding q by (simp add: drag_track_def right_click_phase_pet Let_def split: option.splits)
    show "drag_last_pos ?q = Some (mouse_x i, mouse_y i)"
      unfolding q by (simp add: drag_track_def right_click_phase_pet Let_def split: option.splits)
    show "\<forall>last_x last_y. drag_last_pos p = Some (last_x, last_y) \<longrightarrow>
            throw_velocity ?q = (real_of_int (mouse_x i - last_x), real_of_int (mouse_y i - last_y))"
      unfolding q by (simp add: drag_track_def right_click_phase_pet Let_def) }
  { assume h: "\<not> left_down i \<and> dragging p"
    show "throw_velocity (drag_release ?r) = (fst (throw_velocity p) * 1.5, snd (throw_velocity p) * 1.5)"
      by (simp add: drag_release_def right_click_phase_pet Let_def vx_def vy_def)
    show "\<not> dragging (drag_release ?r)"
      by (simp add: drag_release_def right_click_phase_pet Let_def vx_def vy_def)
    show "(pet_after (update_state d i p), exit_taken (update_state d i p)) = after_drag d i (drag_release ?r)"
      using h by (simp add: update_state_unfold drag_phase_def drag_begin_def right_click_phase_pet) }
qed

theorem drag_lifecycle_witness:
  "left_down (example_input\<lparr>left_down := True\<rparr>)
   \<and> in_bounds (example_input\<lparr>left_down := True\<rparr>) example_pet
   \<and> \<not> dragging example_pet
   \<and> drag_offset (pet_after (update_state example_deps (example_input\<lparr>left_down := True\<rparr>) example_pet))
       = (10, 10)
   \<and> throw_velocity (pet_after (update_state example_deps (example_input\<lparr>left_down := True\<rparr>) example_pet))
       = (0, 0)
   \<and> dragging dragged_pet
   \<and> x (pet_after (update_state example_deps
          (example_input\<lparr>left_down := True, mouse_x := 1800, mouse_y := 1010\<rparr>) dragged_pet)) = 1790
   \<and> y (pet_after (update_state example_deps
          (example_input\<lparr>left_down := True, mouse_x := 1800, mouse_y := 1010\<rparr>) dragged_pet)) = 1000
   \<and> throw_velocity (pet_after (update_state example_deps
          (example_input\<lparr>left_down := True, mouse_x := 1800, mouse_y := 1010\<rparr>) dragged_pet))
       = (- 50, - 40)
   \<and> \<not> left_down example_input
   \<and> throw_velocity (drag_release (fst (right_click_phase example_input
          (in_bounds example_input dragged_pet) dragged_pet))) = (- 75, - 60)"
proof -
  let ?begin = "example_input\<lparr>left_down := True\<rparr>"
  let ?move = "example_input\<lparr>left_down := True, mouse_x := 1800, mouse_y := 1010\<rparr>"
  have a: "left_down ?begin \<and> in_bounds ?begin example_pet \<and> \<not> dragging example_pet"
    by (simp add: in_bounds_def example_input_def example_pet_def)
  have b: "left_down ?move \<and> dragging dragged_pet"
    by (simp add: dragged_pet_def)
  have c: "\<not> left_down example_input \<and> dragging dragged_pet"
    by (simp add: dragged_pet_def example_input_def)
  have last: "drag_last_pos dragged_pet = Some (1850, 1050)"
    by (simp add: dragged_pet_def)
  note started = drag_lifecycle [of ?begin example_pet example_deps, THEN conjunct1, rule_format, OF a]
  note moved = drag_lifecycle [of ?move dragged_pet example_deps, THEN conjunct2, THEN conjunct1,
      rule_format, OF b]
  note released = drag_lifecycle [of example_input dragged_pet example_deps, THEN conjunct2,
      THEN conjunct2, rule_format, OF c]
  have m: "throw_velocity (pet_after (update_state example_deps ?move dragged_pet)) = (- 50, - 40)"
    using moved last by (simp add: example_input_def)
  show ?thesis
    using a b c started moved released m
    by (simp add: example_input_def example_pet_def dragged_pet_def)
qed
section \<open>The secondary-click callback\<close>

lemma consumed_frame_animation [simp]:
  "right_click_consumed (frame_animation d p) = right_click_consumed p"
  by (simp add: frame_animation_def Let_def split: option.splits prod.splits list.splits)

lemma consumed_apply_throw [simp]:
  "right_click_consumed (snd (apply_throw p)) = right_click_consumed p"
  by (simp add: apply_throw_def throw_bounce_def throw_move_def Let_def set_vx_def set_vy_def)

lemma consumed_drag_track [simp]:
  "right_click_consumed (drag_track i p) = right_click_consumed p"
  by (simp add: drag_track_def Let_def split: option.splits)

lemma consumed_drag_release [simp]:
  "right_click_consumed (drag_release p) = right_click_consumed p"
  by (simp add: drag_release_def Let_def)

lemma consumed_drag_begin [simp]:
  "right_click_consumed (drag_begin i b p) = right_click_consumed p"
  by (simp add: drag_begin_def)

lemma consumed_lateral_clamp [simp]:
  "right_click_consumed (snd (lateral_clamp b p)) = right_click_consumed p"
  by (simp add: lateral_clamp_def Let_def split: option.splits)

lemma consumed_lateral_constraint [simp]:
  "right_click_consumed (snd (lateral_constraint p)) = right_click_consumed p"
  by (simp add: lateral_constraint_def Let_def split_beta split: option.splits)

lemma consumed_lie_override [simp]:
  "right_click_consumed (snd (lie_override d g p)) = right_click_consumed p"
  by (simp add: lie_override_def Let_def split: sum.splits)

lemma consumed_state_cycle:
  assumes "helpers_keep_consumed d"
  shows "right_click_consumed (snd (state_cycle d i p)) = right_click_consumed p"
proof -
  have n: "right_click_consumed (snd (state_next d p)) = right_click_consumed p"
    and g: "\<And>q. right_click_consumed (snd (go_climb d q)) = right_click_consumed q"
    using assms by (simp_all add: helpers_keep_consumed_def)
  show ?thesis
  proof (cases "state_next d p")
    case (Pair res p1)
    have p1: "right_click_consumed p1 = right_click_consumed p" using n Pair by simp
    show ?thesis
    proof (cases "go_climb d p1")
      case (Pair e p2)
      have "right_click_consumed p2 = right_click_consumed p1" using g [of p1] Pair by simp
      then show ?thesis using \<open>state_next d p = (res, p1)\<close> Pair p1
        by (simp add: state_cycle_def Let_def split: option.splits sum.splits bool.splits)
    qed
  qed
qed

lemma consumed_react:
  "helpers_keep_consumed d \<Longrightarrow>
     right_click_consumed (snd (react d i cs p)) = right_click_consumed p"
  by (simp add: react_def consumed_state_cycle split: option.splits)

lemma consumed_behave:
  assumes "helpers_keep_consumed d"
  shows "right_click_consumed (fst (behave d i p)) = right_click_consumed p"
proof -
  have s: "\<And>q. right_click_consumed (squirrel_climb d q) = right_click_consumed q"
    using assms by (simp add: helpers_keep_consumed_def)
  show ?thesis
  proof (cases "wall_scene_step p")
    case (Some a)
    then show ?thesis by (simp add: behave_def s)
  next
    case None
    show ?thesis
    proof (cases "color_states d p")
      case (Inl e)
      then show ?thesis using None by (simp add: behave_def)
    next
      case (Inr cs)
      obtain e p1 where r: "react d i cs p = (e, p1)" by (cases "react d i cs p")
      have p1: "right_click_consumed p1 = right_click_consumed p"
        using consumed_react [OF assms, of i cs p] r by simp
      obtain e2 p2 where l: "lateral_constraint p1 = (e2, p2)" by (cases "lateral_constraint p1")
      have p2: "right_click_consumed p2 = right_click_consumed p1"
        using consumed_lateral_constraint [of p1] l by simp
      show ?thesis using None Inr r l p1 p2
        by (simp add: behave_def split: option.splits)
    qed
  qed
qed

lemma consumed_after_drag:
  assumes "helpers_keep_consumed d"
  shows "right_click_consumed (fst (after_drag d i p)) = right_click_consumed p"
proof (cases "apply_throw p")
  case (Pair b p1)
  have "right_click_consumed p1 = right_click_consumed p"
    using consumed_apply_throw [of p] Pair by simp
  then show ?thesis using Pair consumed_behave [OF assms, of i p1]
    by (simp add: after_drag_def split: bool.splits)
qed

lemma consumed_drag_phase:
  "helpers_keep_consumed d \<Longrightarrow>
     right_click_consumed (fst (drag_phase d i p)) = right_click_consumed p"
  by (simp add: drag_phase_def consumed_after_drag)

lemma consumed_update_state:
  "helpers_keep_consumed d \<Longrightarrow>
     right_click_consumed (pet_after (update_state d i p))
       = (right_down i \<and> (right_click_consumed p \<or> in_bounds i p))"
  by (simp add: update_state_unfold consumed_drag_phase right_click_phase_pet)

lemma calls_update_state:
  "check_messages_calls (update_state d i p)
     = (if right_down i \<and> in_bounds i p \<and> \<not> right_click_consumed p \<and> has_main_window p
        then 1 else 0)"
  by (simp add: update_state_unfold right_click_phase_calls)

lemma run_ticks_consumed_silent:
  assumes keep: "helpers_keep_consumed d"
  shows "\<forall>i \<in> set inputs. right_down i \<Longrightarrow> right_click_consumed p \<Longrightarrow>
           snd (run_ticks d inputs p) = 0"
proof (induction inputs arbitrary: p)
  case Nil
  then show ?case by simp
next
  case (Cons i inputs)
  have c: "right_click_consumed (pet_after (update_state d i p))"
    using Cons.prems by (simp add: consumed_update_state [OF keep])
  have "snd (run_ticks d inputs (pet_after (update_state d i p))) = 0"
    using Cons.prems c by (intro Cons.IH) simp_all
  then show ?case using Cons.prems(2) by (simp add: calls_update_state split_beta)
qed

text \<open>
  Claim C9, as the code has it. A tick invokes the callback exactly when it polls the
  secondary button as down while the pointer is within the agent's bounds, the press has
  not been consumed and a main window is attached, and then once. Over any run of ticks
  during which the button stays down the callback is invoked at most once, provided the
  helpers that are not among the sources leave the consumed flag alone.
\<close>

theorem callback_on_press_once:
  "check_messages_calls (update_state d i p)
     = (if right_down i \<and> in_bounds i p \<and> \<not> right_click_consumed p \<and> has_main_window p
        then 1 else 0)
   \<and> (helpers_keep_consumed d \<and> (\<forall>j \<in> set inputs. right_down j)
        \<longrightarrow> snd (run_ticks d inputs p) \<le> 1)"
proof (intro conjI impI)
  show "check_messages_calls (update_state d i p)
     = (if right_down i \<and> in_bounds i p \<and> \<not> right_click_consumed p \<and> has_main_window p
        then 1 else 0)" by (rule calls_update_state)
next
  assume h: "helpers_keep_consumed d \<and> (\<forall>j \<in> set inputs. right_down j)"
  then have keep: "helpers_keep_consumed d" and down: "\<forall>j \<in> set inputs. right_down j" by simp_all
  from down show "snd (run_ticks d inputs p) \<le> 1"
  proof (induction inputs arbitrary: p)
    case Nil
    then show ?case by simp
  next
    case (Cons j inputs)
    let ?q = "pet_after (update_state d j p)"
    show ?case
    proof (cases "check_messages_calls (update_state d j p) = 0")
      case True
      have "snd (run_ticks d inputs ?q) \<le> 1" using Cons.prems by (intro Cons.IH) simp
      then show ?thesis using True by (simp add: split_beta)
    next
      case False
      then have fired: "right_down j \<and> in_bounds j p" and one: "check_messages_calls (update_state d j p) = 1"
        by (simp_all add: calls_update_state split: if_splits)
      have "right_click_consumed ?q" using fired by (simp add: consumed_update_state [OF keep])
      then have "snd (run_ticks d inputs ?q) = 0"
        using Cons.prems by (intro run_ticks_consumed_silent [OF keep]) simp_all
      then show ?thesis using one by (simp add: split_beta)
    qed
  qed
qed


theorem callback_on_press_once_witness:
  "check_messages_calls (update_state example_deps (example_input\<lparr>right_down := True\<rparr>) example_pet) = 1
   \<and> helpers_keep_consumed example_deps
   \<and> snd (run_ticks example_deps
            [example_input\<lparr>right_down := True\<rparr>, example_input\<lparr>right_down := True\<rparr>,
             example_input\<lparr>right_down := True\<rparr>] example_pet) \<le> 1"
proof -
  let ?press = "example_input\<lparr>right_down := True\<rparr>"
  have keep: "helpers_keep_consumed example_deps"
    by (simp add: helpers_keep_consumed_def example_deps_def)
  have down: "\<forall>j \<in> set [?press, ?press, ?press]. right_down j" by simp
  have fire: "right_down ?press \<and> in_bounds ?press example_pet
      \<and> \<not> right_click_consumed example_pet \<and> has_main_window example_pet"
    by (simp add: in_bounds_def example_input_def example_pet_def)
  note main = callback_on_press_once [of example_deps ?press example_pet "[?press, ?press, ?press]"]
  have one: "check_messages_calls (update_state example_deps ?press example_pet) = 1"
    using main fire by simp
  have most: "snd (run_ticks example_deps [?press, ?press, ?press] example_pet) \<le> 1"
    using main keep down by blast
  show ?thesis using one keep most by blast
qed

text \<open>
  The claim as stated ties the callback to the release of the button. In the code a tick
  that polls the button as down invokes it, and the tick that finds the button released,
  with the pointer within bounds and the press not consumed, does not.
\<close>

theorem callback_at_release_counterexample:
  "right_down (example_input\<lparr>right_down := True\<rparr>)
   \<and> check_messages_calls
        (update_state example_deps (example_input\<lparr>right_down := True\<rparr>) example_pet) = 1
   \<and> \<not> right_down example_input
   \<and> in_bounds example_input example_pet
   \<and> \<not> right_click_consumed example_pet
   \<and> check_messages_calls (update_state example_deps example_input example_pet) = 0"
  by (simp add: calls_update_state in_bounds_def example_input_def example_pet_def)

section \<open>The proximity override\<close>

lemma frame_animation_state:
  "state p = Some st \<Longrightarrow>
     state (frame_animation d p) = Some st \<or> state (frame_animation d p) = Some (st\<lparr>counter := 0\<rparr>)"
  by (simp add: frame_animation_def Let_def split: option.splits prod.splits list.splits)

lemma frame_animation_immunity [simp]: "immunity (frame_animation d p) = immunity p"
  by (simp add: frame_animation_def Let_def split: option.splits prod.splits list.splits)

lemma lateral_clamp_state:
  "state p = Some st \<Longrightarrow>
     fst (lateral_clamp b p) = None
     \<and> immunity (snd (lateral_clamp b p)) = immunity p
     \<and> (\<exists>dir. state (snd (lateral_clamp b p)) = Some (st\<lparr>direction := dir\<rparr>))"
proof -
  assume s: "state p = Some st"
  have "st\<lparr>direction := direction st\<rparr> = st" by simp
  then have "\<exists>dir. Some st = Some (st\<lparr>direction := dir\<rparr>)" by metis
  then show ?thesis using s by (auto simp: lateral_clamp_def Let_def)
qed

lemma lateral_constraint_state:
  assumes s: "state p = Some st"
  shows "fst (lateral_constraint p) = None
     \<and> immunity (snd (lateral_constraint p)) = immunity p
     \<and> (\<exists>dir. state (snd (lateral_constraint p)) = Some (st\<lparr>direction := dir\<rparr>))"
proof -
  let ?min = "real_of_int (screen_width p - screen_width p div 4)"
  let ?max = "real_of_int (screen_width p - width p)"
  have keep: "\<exists>dir. Some st = Some (st\<lparr>direction := dir\<rparr>)"
    by (rule exI [of _ "direction st"]) simp
  obtain e1 p1 where r1: "(if x p < ?min then lateral_clamp ?min p else (None, p)) = (e1, p1)"
    by fastforce
  have p1: "e1 = None \<and> immunity p1 = immunity p
      \<and> (\<exists>dir. state p1 = Some (st\<lparr>direction := dir\<rparr>))"
  proof (cases "x p < ?min")
    case True
    then have "lateral_clamp ?min p = (e1, p1)" using r1 by simp
    then show ?thesis using lateral_clamp_state [OF s, of ?min] by simp
  next
    case False
    then show ?thesis using r1 keep s by simp
  qed
  then obtain dir1 where d1: "state p1 = Some (st\<lparr>direction := dir1\<rparr>)" by blast
  obtain e2 p2 where r2: "(if x p1 > ?max then lateral_clamp ?max p1 else (None, p1)) = (e2, p2)"
    by fastforce
  have p2: "e2 = None \<and> immunity p2 = immunity p
      \<and> (\<exists>dir. state p2 = Some (st\<lparr>direction := dir\<rparr>))"
  proof (cases "x p1 > ?max")
    case True
    then have "lateral_clamp ?max p1 = (e2, p2)" using r2 by simp
    then show ?thesis using lateral_clamp_state [OF d1, of ?max] p1 by auto
  next
    case False
    then show ?thesis using r2 p1 by auto
  qed
  have "lateral_constraint p = (e2, p2)"
    unfolding lateral_constraint_def Let_def using r1 r2 p1 by simp
  then show ?thesis using p2 by simp
qed

lemma color_states_cong:
  "species q = species p \<Longrightarrow> color q = color p \<Longrightarrow> color_states d q = color_states d p"
  by (simp add: color_states_def split: option.splits)

lemma lie_defaults_cong:
  "species q = species p \<Longrightarrow> lie_defaults d q = lie_defaults d p"
  by (simp add: lie_defaults_def split: option.splits)

lemma apply_throw_rest:
  "\<bar>vx p\<bar> < 0.2 \<Longrightarrow> \<bar>vy p\<bar> < 0.2 \<Longrightarrow>
     after_drag d i p = behave d i (p\<lparr>throw_velocity := (0, 0)\<rparr>)"
  by (simp add: after_drag_def apply_throw_def)

text \<open>The pet on which the behaviour part of a tick runs when no drag or throw is active.\<close>

lemma update_state_idle:
  assumes "\<not> dragging p" "\<not> (left_down i \<and> in_bounds i p)" "\<bar>vx p\<bar> < 0.2" "\<bar>vy p\<bar> < 0.2"
  shows "(pet_after (update_state d i p), exit_taken (update_state d i p))
     = behave d i (p\<lparr>right_click_consumed := right_down i \<and> (right_click_consumed p \<or> in_bounds i p),
                    throw_velocity := (0, 0)\<rparr>)"
proof -
  let ?r = "p\<lparr>right_click_consumed := right_down i \<and> (right_click_consumed p \<or> in_bounds i p)\<rparr>"
  have b: "drag_begin i (in_bounds i p) ?r = ?r" using assms by (auto simp: drag_begin_def)
  have v: "\<bar>vx ?r\<bar> < 0.2" "\<bar>vy ?r\<bar> < 0.2" using assms by (simp_all add: vx_def vy_def)
  have "drag_phase d i ?r = after_drag d i ?r" using assms by (simp add: drag_phase_def)
  also have "\<dots> = behave d i (?r\<lparr>throw_velocity := (0, 0)\<rparr>)" using v by (rule apply_throw_rest)
  finally show ?thesis by (simp add: update_state_unfold right_click_phase_pet b)
qed

lemma behave_lie_override:
  assumes noclimb: "wall_scene_step p = None"
    and cs: "color_states d p = Inr cs" and lie: "map_of cs ''lie'' = Some g"
    and dflt: "lie_defaults d p = Inr e"
    and near: "distance i p < real_of_int (height_lie p)" and imm: "\<not> immunity p"
  shows "snd (behave d i p) = Completed \<and> immunity (fst (behave d i p))
     \<and> (\<exists>st. state (fst (behave d i p)) = Some st \<and> name st = ''lie'' \<and> gif st = g
              \<and> hold st = lie_duration p)"
proof -
  let ?ms = "case d_movement_speed e of None \<Rightarrow> 0 | Some v \<Rightarrow> v"
  let ?sa = "case d_speed_animation e of None \<Rightarrow> 1.0 | Some v \<Rightarrow> v"
  let ?st = "State d ''lie'' g (lie_duration p) ?ms ?sa None"
  let ?p2 = "p\<lparr>state := Some ?st, immunity := True\<rparr>"
  let ?p3 = "frame_animation d ?p2"
  have r: "react d i cs p = (None, ?p3)"
    using lie near imm dflt by (simp add: react_def lie_override_def Let_def)
  have "state ?p2 = Some ?st" by simp
  from frame_animation_state [OF this, of d]
  obtain st3 where st3: "state ?p3 = Some st3" "st3 = ?st \<or> st3 = ?st\<lparr>counter := 0\<rparr>" by blast
  have nm3: "name st3 = ''lie'' \<and> gif st3 = g \<and> hold st3 = lie_duration p"
    using st3(2) by (auto simp: State_def)
  have imm3: "immunity ?p3" by simp
  note l = lateral_constraint_state [OF st3(1)]
  obtain e4 p4 where l4: "lateral_constraint ?p3 = (e4, p4)" by fastforce
  have p4: "e4 = None \<and> immunity p4 \<and> (\<exists>dir. state p4 = Some (st3\<lparr>direction := dir\<rparr>))"
    using l l4 imm3 by simp
  have "behave d i p = (p4, Completed)"
    using noclimb cs r l4 p4 by (simp add: behave_def)
  then show ?thesis using p4 nm3 by auto
qed

lemma behave_exit: "snd (behave d i p) \<noteq> Drag_return \<and> snd (behave d i p) \<noteq> Throw_return"
  by (simp add: behave_def split_beta split: option.splits sum.splits)

lemma apply_throw_keeps:
  "state (snd (apply_throw p)) = state p" "immunity (snd (apply_throw p)) = immunity p"
  by (simp_all add: apply_throw_def throw_bounce_def throw_move_def Let_def set_vx_def set_vy_def)

lemma drag_track_keeps:
  "state (drag_track i p) = state p" "immunity (drag_track i p) = immunity p"
  by (simp_all add: drag_track_def Let_def split: option.splits)

lemma drag_release_keeps:
  "state (drag_release p) = state p" "immunity (drag_release p) = immunity p"
  by (simp_all add: drag_release_def Let_def)

lemma drag_begin_keeps:
  "state (drag_begin i b p) = state p" "immunity (drag_begin i b p) = immunity p"
  by (simp_all add: drag_begin_def)

lemma after_drag_interrupted:
  assumes "snd (after_drag d i p) = Drag_return \<or> snd (after_drag d i p) = Throw_return"
  shows "state (fst (after_drag d i p)) = state p \<and> immunity (fst (after_drag d i p)) = immunity p"
proof (cases "fst (apply_throw p)")
  case True
  then have "after_drag d i p = (snd (apply_throw p), Throw_return)"
    by (simp add: after_drag_def split_beta)
  then show ?thesis by (simp add: apply_throw_keeps)
next
  case False
  then have "after_drag d i p = behave d i (snd (apply_throw p))"
    by (simp add: after_drag_def split_beta)
  then show ?thesis using assms behave_exit [of d i "snd (apply_throw p)"] by simp
qed

lemma drag_phase_interrupted:
  assumes "snd (drag_phase d i p) = Drag_return \<or> snd (drag_phase d i p) = Throw_return"
  shows "state (fst (drag_phase d i p)) = state p \<and> immunity (fst (drag_phase d i p)) = immunity p"
proof (cases "dragging p \<and> left_down i")
  case True
  then show ?thesis by (simp add: drag_phase_def drag_track_keeps)
next
  case False
  show ?thesis
  proof (cases "dragging p")
    case True
    then have eq: "drag_phase d i p = after_drag d i (drag_release p)"
      using False by (simp add: drag_phase_def)
    show ?thesis using after_drag_interrupted [of d i "drag_release p"] assms
      unfolding eq by (simp add: drag_release_keeps)
  next
    case False
    then have eq: "drag_phase d i p = after_drag d i p" by (simp add: drag_phase_def)
    show ?thesis using after_drag_interrupted [of d i p] assms unfolding eq by simp
  qed
qed

lemma update_state_interrupted:
  assumes "exit_taken (update_state d i p) = Drag_return
         \<or> exit_taken (update_state d i p) = Throw_return"
  shows "state (pet_after (update_state d i p)) = state p
       \<and> immunity (pet_after (update_state d i p)) = immunity p"
proof -
  let ?b = "drag_begin i (in_bounds i p) (fst (right_click_phase i (in_bounds i p) p))"
  have "state (fst (drag_phase d i ?b)) = state ?b \<and> immunity (fst (drag_phase d i ?b)) = immunity ?b"
    using assms by (intro drag_phase_interrupted) (simp add: update_state_unfold)
  then show ?thesis
    by (simp add: update_state_unfold drag_begin_keeps right_click_phase_pet)
qed

lemma update_state_drag_exit:
  "left_down i \<Longrightarrow> dragging p \<or> in_bounds i p \<Longrightarrow> exit_taken (update_state d i p) = Drag_return"
  by (auto simp: update_state_unfold drag_phase_def drag_begin_def right_click_phase_pet)

lemma update_state_throw_exit:
  assumes "\<not> dragging p" "\<not> (left_down i \<and> in_bounds i p)" "\<not> (\<bar>vx p\<bar> < 0.2 \<and> \<bar>vy p\<bar> < 0.2)"
  shows "exit_taken (update_state d i p) = Throw_return"
proof -
  let ?r = "p\<lparr>right_click_consumed := right_down i \<and> (right_click_consumed p \<or> in_bounds i p)\<rparr>"
  have b: "drag_begin i (in_bounds i p) ?r = ?r" using assms by (auto simp: drag_begin_def)
  have "fst (apply_throw ?r)" using assms(3) by (simp add: apply_throw_def vx_def vy_def)
  then have "snd (after_drag d i ?r) = Throw_return" by (simp add: after_drag_def split_beta)
  then show ?thesis using assms(1)
    by (simp add: update_state_unfold right_click_phase_pet b drag_phase_def)
qed

text \<open>
  Claim C5, as the code has it. An agent that is not dragged, has no active throw, is not
  in a wall-climb scene, whose colour variant has a \<^verbatim>\<open>lie\<close> state and whose species has a
  \<^verbatim>\<open>defaults\<close> table, whose distance to the pointer is below \<^verbatim>\<open>height_lie\<close> and whose
  immunity is false: the tick completes with the \<^verbatim>\<open>lie\<close> state as current state, whatever
  the previous state and its counter were, and with immunity true. A tick with the primary
  button down on a dragged or pointed-at agent exits as a drag tick, a tick with a
  velocity component of magnitude 0.2 or more exits as a throw tick, and a tick that
  exits as a drag or throw tick leaves state and immunity as they were.
\<close>

theorem proximity_forces_lie:
  "(\<not> dragging p \<and> \<not> (left_down i \<and> in_bounds i p)
      \<and> \<bar>vx p\<bar> < 0.2 \<and> \<bar>vy p\<bar> < 0.2
      \<and> wall_scene_step p = None
      \<and> color_states d p = Inr cs \<and> map_of cs ''lie'' = Some g
      \<and> lie_defaults d p = Inr e
      \<and> distance i p < real_of_int (height_lie p) \<and> \<not> immunity p
    \<longrightarrow> exit_taken (update_state d i p) = Completed
        \<and> immunity (pet_after (update_state d i p))
        \<and> (\<exists>st. state (pet_after (update_state d i p)) = Some st
                 \<and> name st = ''lie'' \<and> gif st = g \<and> hold st = lie_duration p))
 \<and> (left_down i \<and> (dragging p \<or> in_bounds i p)
    \<longrightarrow> exit_taken (update_state d i p) = Drag_return)
 \<and> (\<not> dragging p \<and> \<not> (left_down i \<and> in_bounds i p) \<and> \<not> (\<bar>vx p\<bar> < 0.2 \<and> \<bar>vy p\<bar> < 0.2)
    \<longrightarrow> exit_taken (update_state d i p) = Throw_return)
 \<and> (exit_taken (update_state d i p) = Drag_return \<or> exit_taken (update_state d i p) = Throw_return
    \<longrightarrow> state (pet_after (update_state d i p)) = state p
        \<and> immunity (pet_after (update_state d i p)) = immunity p)"
proof (intro conjI impI)
  assume h: "\<not> dragging p \<and> \<not> (left_down i \<and> in_bounds i p)
      \<and> \<bar>vx p\<bar> < 0.2 \<and> \<bar>vy p\<bar> < 0.2
      \<and> wall_scene_step p = None
      \<and> color_states d p = Inr cs \<and> map_of cs ''lie'' = Some g
      \<and> lie_defaults d p = Inr e
      \<and> distance i p < real_of_int (height_lie p) \<and> \<not> immunity p"
  let ?q = "p\<lparr>right_click_consumed := right_down i \<and> (right_click_consumed p \<or> in_bounds i p),
              throw_velocity := (0, 0)\<rparr>"
  from h have h1: "\<not> dragging p" and h2: "\<not> (left_down i \<and> in_bounds i p)"
    and h3: "\<bar>vx p\<bar> < 0.2" and h4: "\<bar>vy p\<bar> < 0.2" and h5: "wall_scene_step p = None"
    and h6: "color_states d p = Inr cs" and h7: "map_of cs ''lie'' = Some g"
    and h8: "lie_defaults d p = Inr e" and h9: "distance i p < real_of_int (height_lie p)"
    and h10: "\<not> immunity p" by blast+
  have u: "(pet_after (update_state d i p), exit_taken (update_state d i p)) = behave d i ?q"
    using h1 h2 h3 h4 by (rule update_state_idle)
  have cs: "color_states d ?q = Inr cs" using h6 color_states_cong [of ?q p d] by simp
  have df: "lie_defaults d ?q = Inr e" using h8 lie_defaults_cong [of ?q p d] by simp
  have near: "distance i ?q < real_of_int (height_lie ?q)" using h9 by (simp add: distance_def)
  have ws: "wall_scene_step ?q = None" using h5 by simp
  have im: "\<not> immunity ?q" using h10 by simp
  have "snd (behave d i ?q) = Completed \<and> immunity (fst (behave d i ?q))
     \<and> (\<exists>st. state (fst (behave d i ?q)) = Some st \<and> name st = ''lie'' \<and> gif st = g
              \<and> hold st = lie_duration ?q)"
    using ws cs h7 df near im by (rule behave_lie_override)
  then have r: "exit_taken (update_state d i p) = Completed \<and> immunity (pet_after (update_state d i p))
     \<and> (\<exists>st. state (pet_after (update_state d i p)) = Some st \<and> name st = ''lie'' \<and> gif st = g
              \<and> hold st = lie_duration p)"
    using u [symmetric] by simp
  show "exit_taken (update_state d i p) = Completed" using r by simp
  show "immunity (pet_after (update_state d i p))" using r by simp
  show "\<exists>st. state (pet_after (update_state d i p)) = Some st
                 \<and> name st = ''lie'' \<and> gif st = g \<and> hold st = lie_duration p" using r by simp
next
  assume "left_down i \<and> (dragging p \<or> in_bounds i p)"
  then show "exit_taken (update_state d i p) = Drag_return"
    using update_state_drag_exit [of i p d] by blast
next
  assume "\<not> dragging p \<and> \<not> (left_down i \<and> in_bounds i p) \<and> \<not> (\<bar>vx p\<bar> < 0.2 \<and> \<bar>vy p\<bar> < 0.2)"
  then show "exit_taken (update_state d i p) = Throw_return"
    by (intro update_state_throw_exit) simp_all
next
  assume a: "exit_taken (update_state d i p) = Drag_return \<or> exit_taken (update_state d i p) = Throw_return"
  show "state (pet_after (update_state d i p)) = state p"
    using update_state_interrupted [OF a] by simp
  show "immunity (pet_after (update_state d i p)) = immunity p"
    using update_state_interrupted [OF a] by simp
qed

theorem proximity_forces_lie_witness:
  "\<not> dragging example_pet \<and> \<not> (left_down near_input \<and> in_bounds near_input example_pet)
   \<and> \<bar>vx example_pet\<bar> < 0.2 \<and> \<bar>vy example_pet\<bar> < 0.2
   \<and> wall_scene_step example_pet = None
   \<and> distance near_input example_pet < real_of_int (height_lie example_pet)
   \<and> \<not> immunity example_pet
   \<and> exit_taken (update_state example_deps near_input example_pet) = Completed
   \<and> immunity (pet_after (update_state example_deps near_input example_pet))
   \<and> (\<exists>st. state (pet_after (update_state example_deps near_input example_pet)) = Some st
            \<and> name st = ''lie'' \<and> gif st = ''media/cat/black_lie_8fps.gif'' \<and> hold st = 24)
   \<and> exit_taken (update_state example_deps (near_input\<lparr>left_down := True\<rparr>) example_pet) = Drag_return
   \<and> state (pet_after (update_state example_deps (near_input\<lparr>left_down := True\<rparr>) example_pet))
        = Some example_state
   \<and> \<not> immunity (pet_after (update_state example_deps (near_input\<lparr>left_down := True\<rparr>) example_pet))
   \<and> exit_taken (update_state example_deps near_input (example_pet\<lparr>throw_velocity := (- 3, 0)\<rparr>))
        = Throw_return
   \<and> state (pet_after (update_state example_deps near_input (example_pet\<lparr>throw_velocity := (- 3, 0)\<rparr>)))
        = Some example_state
   \<and> \<not> immunity (pet_after (update_state example_deps near_input
          (example_pet\<lparr>throw_velocity := (- 3, 0)\<rparr>)))"
proof -
  let ?cs = "[(''idle'', ''media/cat/black_idle_8fps.gif''),
             (''lie'', ''media/cat/black_lie_8fps.gif''),
             (''with_ball'', ''media/cat/black_with_ball_8fps.gif'')]"
  let ?e = "\<lparr>d_hold = None, d_movement_speed = None, d_speed_animation = None\<rparr>"
  let ?thrown = "example_pet\<lparr>throw_velocity := (- 3, 0)\<rparr>"
  let ?drag = "near_input\<lparr>left_down := True\<rparr>"
  have idle: "\<not> dragging example_pet \<and> \<not> (left_down near_input \<and> in_bounds near_input example_pet)
      \<and> \<bar>vx example_pet\<bar> < 0.2 \<and> \<bar>vy example_pet\<bar> < 0.2 \<and> wall_scene_step example_pet = None"
    by (simp add: example_pet_def near_input_def example_input_def vx_def vy_def)
  have cat: "color_states example_deps example_pet = Inr ?cs \<and> map_of ?cs ''lie'' = Some ''media/cat/black_lie_8fps.gif''
      \<and> lie_defaults example_deps example_pet = Inr ?e"
    by (simp add: color_states_def lie_defaults_def example_deps_def example_data_def example_pet_def)
  have near: "distance near_input example_pet < real_of_int (height_lie example_pet) \<and> \<not> immunity example_pet"
    by (simp add: distance_def example_pet_def near_input_def example_input_def)
  have drag: "left_down ?drag \<and> (dragging example_pet \<or> in_bounds ?drag example_pet)"
    by (simp add: in_bounds_def example_pet_def near_input_def example_input_def)
  have thrown: "\<not> dragging ?thrown \<and> \<not> (left_down near_input \<and> in_bounds near_input ?thrown)
      \<and> \<not> (\<bar>vx ?thrown\<bar> < 0.2 \<and> \<bar>vy ?thrown\<bar> < 0.2)"
    by (simp add: example_pet_def near_input_def example_input_def vx_def vy_def)
  have vals: "state example_pet = Some example_state" "lie_duration example_pet = 24"
    "state ?thrown = Some example_state" "\<not> immunity ?thrown"
    by (simp_all add: example_pet_def)
  note lie = proximity_forces_lie [of example_pet near_input example_deps ?cs
      "''media/cat/black_lie_8fps.gif''" ?e, THEN conjunct1, rule_format]
  note dragged = proximity_forces_lie [of example_pet ?drag example_deps ?cs
      "''media/cat/black_lie_8fps.gif''" ?e]
  note thrw = proximity_forces_lie [of ?thrown near_input example_deps ?cs
      "''media/cat/black_lie_8fps.gif''" ?e]
  have 1: "exit_taken (update_state example_deps near_input example_pet) = Completed
   \<and> immunity (pet_after (update_state example_deps near_input example_pet))
   \<and> (\<exists>st. state (pet_after (update_state example_deps near_input example_pet)) = Some st
            \<and> name st = ''lie'' \<and> gif st = ''media/cat/black_lie_8fps.gif'' \<and> hold st = 24)"
    using lie idle cat near vals(2) by simp
  have 2: "exit_taken (update_state example_deps ?drag example_pet) = Drag_return
     \<and> state (pet_after (update_state example_deps ?drag example_pet)) = Some example_state
     \<and> \<not> immunity (pet_after (update_state example_deps ?drag example_pet))"
    using dragged drag vals(1) near by simp
  have 3: "exit_taken (update_state example_deps near_input ?thrown) = Throw_return
     \<and> state (pet_after (update_state example_deps near_input ?thrown)) = Some example_state
     \<and> \<not> immunity (pet_after (update_state example_deps near_input ?thrown))"
    using thrw thrown vals(3,4) by simp
  show ?thesis using idle near 1 2 3 by simp
qed

text \<open>
  The claim as stated fails on the code. With a configuration that has no
  \<^verbatim>\<open>"defaults"\<close> table, line 174 raises \<^verbatim>\<open>KeyError\<close> before the state is replaced: the
  tick ends in the \<^verbatim>\<open>except\<close> clause with the old state and immunity still false. And
  for an agent in a wall-climb scene the tick returns at line 168, before the proximity
  test is reached (here with a \<^verbatim>\<open>squirrel_climb\<close> that leaves the pet as it is). And
  where the colour has no \<^verbatim>\<open>lie\<close> state the guard of line 171 sends the tick to the
  state cycle (here with a \<^verbatim>\<open>State.next\<close> that reports the cycle as unfinished).
\<close>

theorem proximity_override_counterexample:
  "\<not> dragging example_pet \<and> \<not> left_down near_input
   \<and> \<bar>vx example_pet\<bar> < 0.2 \<and> \<bar>vy example_pet\<bar> < 0.2
   \<and> distance near_input example_pet < real_of_int (height_lie example_pet)
   \<and> \<not> immunity example_pet
   \<and> exit_taken (update_state (example_deps\<lparr>PETS_DATA := data_without_defaults\<rparr>)
        near_input example_pet) = Raised KeyError
   \<and> state (pet_after (update_state (example_deps\<lparr>PETS_DATA := data_without_defaults\<rparr>)
        near_input example_pet)) = Some example_state
   \<and> name example_state \<noteq> ''lie''
   \<and> \<not> immunity (pet_after (update_state (example_deps\<lparr>PETS_DATA := data_without_defaults\<rparr>)
        near_input example_pet))
   \<and> exit_taken (update_state example_deps near_input (example_pet\<lparr>wall_scene_step := Some 0\<rparr>))
        = Climb_return
   \<and> state (pet_after (update_state example_deps near_input
        (example_pet\<lparr>wall_scene_step := Some 0\<rparr>))) = Some example_state
   \<and> \<not> immunity (pet_after (update_state example_deps near_input
        (example_pet\<lparr>wall_scene_step := Some 0\<rparr>)))
   \<and> exit_taken (update_state (example_deps\<lparr>PETS_DATA := data_without_lie\<rparr>)
        near_input example_pet) = Completed
   \<and> state (pet_after (update_state (example_deps\<lparr>PETS_DATA := data_without_lie\<rparr>)
        near_input example_pet)) = Some example_state
   \<and> \<not> immunity (pet_after (update_state (example_deps\<lparr>PETS_DATA := data_without_lie\<rparr>)
        near_input example_pet))"
proof -
  let ?d = "example_deps\<lparr>PETS_DATA := data_without_defaults\<rparr>"
  let ?n = "example_deps\<lparr>PETS_DATA := data_without_lie\<rparr>"
  let ?w = "example_pet\<lparr>wall_scene_step := Some 0\<rparr>"
  have idle: "\<not> dragging example_pet" "\<not> (left_down near_input \<and> in_bounds near_input example_pet)"
      "\<bar>vx example_pet\<bar> < 0.2" "\<bar>vy example_pet\<bar> < 0.2"
    by (simp_all add: example_pet_def near_input_def example_input_def vx_def vy_def)
  have idle_w: "\<not> dragging ?w" "\<not> (left_down near_input \<and> in_bounds near_input ?w)"
      "\<bar>vx ?w\<bar> < 0.2" "\<bar>vy ?w\<bar> < 0.2"
    by (simp_all add: example_pet_def near_input_def example_input_def vx_def vy_def)
  have near: "distance near_input example_pet < real_of_int (height_lie example_pet)"
    by (simp add: distance_def example_pet_def near_input_def example_input_def)
  have a: "(pet_after (update_state ?d near_input example_pet),
            exit_taken (update_state ?d near_input example_pet))
      = (example_pet\<lparr>right_click_consumed := False, throw_velocity := (0, 0)\<rparr>, Raised KeyError)"
    unfolding update_state_idle [OF idle]
    by (simp add: behave_def color_states_def react_def lie_override_def lie_defaults_def
        distance_def example_deps_def data_without_defaults_def example_pet_def near_input_def
        example_input_def)
  have b: "(pet_after (update_state example_deps near_input ?w),
            exit_taken (update_state example_deps near_input ?w))
      = (?w\<lparr>right_click_consumed := False, throw_velocity := (0, 0)\<rparr>, Climb_return)"
    unfolding update_state_idle [OF idle_w]
    by (simp add: behave_def example_deps_def near_input_def example_input_def)
  have c: "(pet_after (update_state ?n near_input example_pet),
            exit_taken (update_state ?n near_input example_pet))
      = (example_pet\<lparr>right_click_consumed := False, throw_velocity := (0, 0)\<rparr>, Completed)"
    unfolding update_state_idle [OF idle]
    by (simp add: behave_def color_states_def react_def state_cycle_def lateral_constraint_def
        Let_def example_deps_def data_without_lie_def example_pet_def near_input_def
        example_input_def)
  have st: "state example_pet = Some example_state" "\<not> immunity example_pet"
    "name example_state \<noteq> ''lie''" "\<not> left_down near_input"
    by (simp_all add: example_pet_def example_state_def near_input_def example_input_def)
  show ?thesis using a b c st idle near by simp
qed

section \<open>The lateral screen-partition constraint\<close>

lemma lateral_clamp_eq:
  "state p = Some st \<Longrightarrow> lateral_clamp b p = (None, p\<lparr>x := b, state := Some (turned st)\<rparr>)"
  by (simp add: lateral_clamp_def turned_def Let_def)

lemma behave_completed:
  assumes "snd (behave d i p) = Completed"
  shows "\<exists>cs mid. color_states d p = Inr cs \<and> react d i cs p = (None, mid)
           \<and> lateral_constraint mid = (None, fst (behave d i p))"
  using assms
  by (auto simp: behave_def split: option.splits sum.splits prod.splits)

text \<open>
  Claim C7, as the code has it. For an agent with a current state whose left inset
  \<open>screen_width - screen_width div 4\<close> does not exceed its right-most allowed x
  \<open>screen_width - width\<close>: an x below the left inset, or above the right-most allowed x,
  is set to that boundary and the direction of the current state is negated, unless the
  state is \<^verbatim>\<open>walldig\<close>, whose direction stays; an x between the two is left alone.
\<close>

theorem lateral_constraint_clamps:
  assumes st: "state p = Some st"
    and ordered: "screen_width p - screen_width p div 4 \<le> screen_width p - width p"
  shows "(x p < real_of_int (screen_width p - screen_width p div 4) \<longrightarrow>
            lateral_constraint p
              = (None, p\<lparr>x := real_of_int (screen_width p - screen_width p div 4),
                         state := Some (turned st)\<rparr>))
       \<and> (x p > real_of_int (screen_width p - width p) \<longrightarrow>
            lateral_constraint p
              = (None, p\<lparr>x := real_of_int (screen_width p - width p),
                         state := Some (turned st)\<rparr>))
       \<and> (real_of_int (screen_width p - screen_width p div 4) \<le> x p
            \<and> x p \<le> real_of_int (screen_width p - width p) \<longrightarrow>
            lateral_constraint p = (None, p))
       \<and> (name st = ''walldig'' \<longrightarrow> direction (turned st) = direction st)
       \<and> (name st \<noteq> ''walldig'' \<longrightarrow> direction (turned st) = - direction st)
       \<and> name (turned st) = name st"
proof (intro conjI impI)
  let ?min = "real_of_int (screen_width p - screen_width p div 4)"
  let ?max = "real_of_int (screen_width p - width p)"
  have le: "?min \<le> ?max" using ordered by linarith
  { assume low: "x p < ?min"
    have "lateral_constraint p = (None, p\<lparr>x := ?min, state := Some (turned st)\<rparr>)"
      unfolding lateral_constraint_def Let_def using low le lateral_clamp_eq [OF st, of ?min]
      by simp
    then show "lateral_constraint p = (None, p\<lparr>x := ?min, state := Some (turned st)\<rparr>)" . }
  { assume high: "x p > ?max"
    then have nlow: "\<not> x p < ?min" using le by linarith
    show "lateral_constraint p = (None, p\<lparr>x := ?max, state := Some (turned st)\<rparr>)"
      unfolding lateral_constraint_def Let_def using high nlow lateral_clamp_eq [OF st, of ?max]
      by simp }
  { assume "?min \<le> x p \<and> x p \<le> ?max"
    then show "lateral_constraint p = (None, p)"
      unfolding lateral_constraint_def Let_def by simp }
  show "name st = ''walldig'' \<Longrightarrow> direction (turned st) = direction st"
    by (simp add: turned_def)
  show "name st \<noteq> ''walldig'' \<Longrightarrow> direction (turned st) = - direction st"
    by (simp add: turned_def)
  show "name (turned st) = name st" by (simp add: turned_def)
qed

theorem lateral_constraint_clamps_witness:
  "state example_pet = Some example_state
   \<and> screen_width example_pet - screen_width example_pet div 4
        \<le> screen_width example_pet - width example_pet
   \<and> lateral_constraint (example_pet\<lparr>x := 1400\<rparr>)
        = (None, example_pet\<lparr>x := 1440, state := Some (example_state\<lparr>direction := - 1\<rparr>)\<rparr>)
   \<and> lateral_constraint (example_pet\<lparr>x := 1850\<rparr>)
        = (None, example_pet\<lparr>x := 1840, state := Some (example_state\<lparr>direction := - 1\<rparr>)\<rparr>)
   \<and> lateral_constraint (example_pet\<lparr>x := 1500\<rparr>) = (None, example_pet\<lparr>x := 1500\<rparr>)
   \<and> lateral_constraint (example_pet\<lparr>x := 1400, state := Some (example_state\<lparr>name := ''walldig''\<rparr>)\<rparr>)
        = (None, example_pet\<lparr>x := 1440, state := Some (example_state\<lparr>name := ''walldig''\<rparr>)\<rparr>)"
proof -
  let ?dig = "example_state\<lparr>name := ''walldig''\<rparr>"
  have s: "state (example_pet\<lparr>x := 1400\<rparr>) = Some example_state"
    "state (example_pet\<lparr>x := 1850\<rparr>) = Some example_state"
    "state (example_pet\<lparr>x := 1500\<rparr>) = Some example_state"
    "state (example_pet\<lparr>x := 1400, state := Some ?dig\<rparr>) = Some ?dig"
    "state example_pet = Some example_state"
    by (simp_all add: example_pet_def)
  have o: "screen_width example_pet - screen_width example_pet div 4
        \<le> screen_width example_pet - width example_pet"
    by (simp add: example_pet_def)
  have o': "\<And>v s. screen_width (example_pet\<lparr>x := v\<rparr>) - screen_width (example_pet\<lparr>x := v\<rparr>) div 4
        \<le> screen_width (example_pet\<lparr>x := v\<rparr>) - width (example_pet\<lparr>x := v\<rparr>)"
    "\<And>v s. screen_width (example_pet\<lparr>x := v, state := s\<rparr>) - screen_width (example_pet\<lparr>x := v, state := s\<rparr>) div 4
        \<le> screen_width (example_pet\<lparr>x := v, state := s\<rparr>) - width (example_pet\<lparr>x := v, state := s\<rparr>)"
    using o by simp_all
  have t: "turned example_state = example_state\<lparr>direction := - 1\<rparr>" "turned ?dig = ?dig"
    by (simp_all add: turned_def example_state_def)
  show ?thesis
    using lateral_constraint_clamps [OF s(1) o'(1)] lateral_constraint_clamps [OF s(2) o'(1)]
      lateral_constraint_clamps [OF s(3) o'(1)] lateral_constraint_clamps [OF s(4) o'(2)] s(5) o
    by (simp add: t) (simp add: example_pet_def)
qed

text \<open>
  The claim as stated fails when the agent is wider than a quarter of the screen. The
  left inset then lies to the right of the right-most allowed x, both tests fire one
  after the other, and an agent below the left inset ends at the right-most allowed x
  with its direction negated twice: here the tick leaves the agent exactly as it was.
\<close>

theorem lateral_constraint_counterexample:
  "state wide_pet = Some example_state \<and> name example_state \<noteq> ''walldig''
   \<and> x wide_pet < real_of_int (screen_width wide_pet - screen_width wide_pet div 4)
   \<and> x (snd (lateral_constraint wide_pet))
        \<noteq> real_of_int (screen_width wide_pet - screen_width wide_pet div 4)
   \<and> lateral_constraint wide_pet = (None, wide_pet)"
  by (simp add: lateral_constraint_def lateral_clamp_def Let_def wide_pet_def example_pet_def
      example_state_def)

section \<open>Staying on the screen\<close>

lemma lateral_constraint_bounds:
  assumes r: "lateral_constraint p = (None, q)"
  shows "screen_width q = screen_width p \<and> width q = width p
       \<and> x q \<le> real_of_int (screen_width p - width p)
       \<and> (0 \<le> screen_width p \<and> width p \<le> screen_width p \<longrightarrow> 0 \<le> x q)"
proof -
  let ?min = "real_of_int (screen_width p - screen_width p div 4)"
  let ?max = "real_of_int (screen_width p - width p)"
  have nonneg: "0 \<le> screen_width p \<Longrightarrow> 0 \<le> ?min" by simp
  show ?thesis
  proof (cases "state p")
    case None
    then have "\<not> x p < ?min" using r
      by (auto simp: lateral_constraint_def lateral_clamp_def Let_def)
    moreover from this have "\<not> x p > ?max" using r None
      by (auto simp: lateral_constraint_def lateral_clamp_def Let_def)
    ultimately have "q = p" using r by (simp add: lateral_constraint_def Let_def)
    then show ?thesis using \<open>\<not> x p < ?min\<close> \<open>\<not> x p > ?max\<close> nonneg by auto
  next
    case (Some st)
    show ?thesis
    proof (cases "x p < ?min")
      case True
      let ?p1 = "p\<lparr>x := ?min, state := Some (turned st)\<rparr>"
      have s1: "state ?p1 = Some (turned st)" by simp
      show ?thesis
      proof (cases "?min > ?max")
        case True
        have "lateral_constraint p = (None, ?p1\<lparr>x := ?max, state := Some (turned (turned st))\<rparr>)"
          unfolding lateral_constraint_def Let_def
          using \<open>x p < ?min\<close> True lateral_clamp_eq [OF Some, of ?min] lateral_clamp_eq [OF s1, of ?max]
          by simp
        then show ?thesis using r by auto
      next
        case False
        have "lateral_constraint p = (None, ?p1)"
          unfolding lateral_constraint_def Let_def
          using \<open>x p < ?min\<close> False lateral_clamp_eq [OF Some, of ?min] by simp
        then show ?thesis using r False nonneg by auto
      qed
    next
      case False
      show ?thesis
      proof (cases "x p > ?max")
        case True
        have "lateral_constraint p = (None, p\<lparr>x := ?max, state := Some (turned st)\<rparr>)"
          unfolding lateral_constraint_def Let_def
          using \<open>\<not> x p < ?min\<close> True lateral_clamp_eq [OF Some, of ?max] by simp
        then show ?thesis using r by auto
      next
        case True': False
        have "lateral_constraint p = (None, p)"
          unfolding lateral_constraint_def Let_def using \<open>\<not> x p < ?min\<close> True' by simp
        then show ?thesis using r \<open>\<not> x p < ?min\<close> True' nonneg by auto
      qed
    qed
  qed
qed

lemma drag_phase_exits:
  "(snd (drag_phase d i p) = Drag_return \<longrightarrow> fst (drag_phase d i p) = drag_track i p)
   \<and> (snd (drag_phase d i p) = Throw_return \<longrightarrow>
        (\<exists>p1. (p1 = p \<or> p1 = drag_release p) \<and> fst (apply_throw p1)
              \<and> fst (drag_phase d i p) = snd (apply_throw p1)))
   \<and> (snd (drag_phase d i p) = Completed \<longrightarrow>
        (\<exists>p1. behave d i p1 = (fst (drag_phase d i p), Completed)))"
proof -
  have ad: "\<And>r. (snd (after_drag d i r) \<noteq> Drag_return)
      \<and> (snd (after_drag d i r) = Throw_return \<longrightarrow>
            fst (apply_throw r) \<and> fst (after_drag d i r) = snd (apply_throw r))
      \<and> (snd (after_drag d i r) = Completed \<longrightarrow>
            (\<exists>p1. behave d i p1 = (fst (after_drag d i r), Completed)))"
  proof -
    fix r
    show "(snd (after_drag d i r) \<noteq> Drag_return)
      \<and> (snd (after_drag d i r) = Throw_return \<longrightarrow>
            fst (apply_throw r) \<and> fst (after_drag d i r) = snd (apply_throw r))
      \<and> (snd (after_drag d i r) = Completed \<longrightarrow>
            (\<exists>p1. behave d i p1 = (fst (after_drag d i r), Completed)))"
    proof (cases "fst (apply_throw r)")
      case True
      then have "after_drag d i r = (snd (apply_throw r), Throw_return)"
        by (simp add: after_drag_def split_beta)
      then show ?thesis using True by simp
    next
      case False
      then have eq: "after_drag d i r = behave d i (snd (apply_throw r))"
        by (simp add: after_drag_def split_beta)
      have c: "snd (behave d i (snd (apply_throw r))) = Completed \<Longrightarrow>
          \<exists>p1. behave d i p1 = (fst (behave d i (snd (apply_throw r))), Completed)"
        by (metis prod.collapse)
      show ?thesis unfolding eq using behave_exit [of d i "snd (apply_throw r)"] c by blast
    qed
  qed
  show ?thesis
  proof (cases "dragging p")
    case True
    show ?thesis
    proof (cases "left_down i")
      case True
      then show ?thesis using \<open>dragging p\<close> by (simp add: drag_phase_def)
    next
      case False
      then have "drag_phase d i p = after_drag d i (drag_release p)"
        using True by (simp add: drag_phase_def)
      then show ?thesis using ad [of "drag_release p"] by auto
    qed
  next
    case False
    then have "drag_phase d i p = after_drag d i p" by (simp add: drag_phase_def)
    then show ?thesis using ad [of p] by auto
  qed
qed

lemma drag_track_on_screen:
  "width p \<le> screen_width p \<Longrightarrow> height p \<le> screen_height p \<Longrightarrow> on_screen (drag_track i p)"
  by (simp add: on_screen_def drag_track_def Let_def split: option.splits)

lemma throw_bounce_on_screen:
  "width p \<le> screen_width p \<Longrightarrow> height p \<le> screen_height p \<Longrightarrow> on_screen (throw_bounce p)"
  by (simp add: on_screen_def throw_bounce_def Let_def set_vx_def set_vy_def)

lemma apply_throw_on_screen:
  "width p \<le> screen_width p \<Longrightarrow> height p \<le> screen_height p \<Longrightarrow> fst (apply_throw p) \<Longrightarrow>
     on_screen (snd (apply_throw p))"
  by (auto simp: apply_throw_def dims_throw_move intro!: throw_bounce_on_screen split: if_splits)

lemma dims_before_drag_phase:
  "width (drag_begin i b (fst (right_click_phase i b p))) = width p"
  "height (drag_begin i b (fst (right_click_phase i b p))) = height p"
  "screen_width (drag_begin i b (fst (right_click_phase i b p))) = screen_width p"
  "screen_height (drag_begin i b (fst (right_click_phase i b p))) = screen_height p"
  by (simp_all add: drag_begin_def right_click_phase_pet)

lemma dims_drag_release:
  "width (drag_release p) = width p" "height (drag_release p) = height p"
  "screen_width (drag_release p) = screen_width p" "screen_height (drag_release p) = screen_height p"
  by (simp_all add: drag_release_def Let_def)

text \<open>
  Claim C1, as the code has it. For an agent that fits on the screen, a tick that exits
  as a drag tick or as a throw tick leaves the bounding box within the screen rectangle:
  \<open>0 \<le> x \<le> screen_width - width\<close> and \<open>0 \<le> y \<le> screen_height - height\<close>. A normal
  tick that runs to completion leaves \<open>0 \<le> x \<le> screen_width - width\<close> for the width the
  agent has after the tick, when that width fits the screen; it does not clamp y.
\<close>

theorem tick_keeps_on_screen:
  "(width p \<le> screen_width p \<and> height p \<le> screen_height p
      \<and> (exit_taken (update_state d i p) = Drag_return
           \<or> exit_taken (update_state d i p) = Throw_return)
    \<longrightarrow> on_screen (pet_after (update_state d i p)))
 \<and> (exit_taken (update_state d i p) = Completed
      \<and> 0 \<le> screen_width (pet_after (update_state d i p))
      \<and> width (pet_after (update_state d i p)) \<le> screen_width (pet_after (update_state d i p))
    \<longrightarrow> 0 \<le> x (pet_after (update_state d i p))
        \<and> x (pet_after (update_state d i p))
             \<le> real_of_int (screen_width (pet_after (update_state d i p))
                              - width (pet_after (update_state d i p))))"
proof (intro conjI impI)
  let ?b = "drag_begin i (in_bounds i p) (fst (right_click_phase i (in_bounds i p) p))"
  let ?q = "pet_after (update_state d i p)"
  have q: "?q = fst (drag_phase d i ?b)" and ex: "exit_taken (update_state d i p) = snd (drag_phase d i ?b)"
    by (simp_all add: update_state_unfold)
  note exits = drag_phase_exits [of d i ?b]
  { assume h: "width p \<le> screen_width p \<and> height p \<le> screen_height p
      \<and> (exit_taken (update_state d i p) = Drag_return
           \<or> exit_taken (update_state d i p) = Throw_return)"
    then have fit: "width ?b \<le> screen_width ?b" "height ?b \<le> screen_height ?b"
      by (simp_all add: dims_before_drag_phase)
    from h have "exit_taken (update_state d i p) = Drag_return
           \<or> exit_taken (update_state d i p) = Throw_return" by simp
    then show "on_screen ?q"
    proof
      assume "exit_taken (update_state d i p) = Drag_return"
      then have "?q = drag_track i ?b" using exits q ex by simp
      then show ?thesis using drag_track_on_screen [OF fit] by simp
    next
      assume "exit_taken (update_state d i p) = Throw_return"
      then obtain p1 where p1: "p1 = ?b \<or> p1 = drag_release ?b" "fst (apply_throw p1)"
          "?q = snd (apply_throw p1)"
        using exits q ex by auto
      have "width p1 \<le> screen_width p1" "height p1 \<le> screen_height p1"
        using p1(1) fit by (auto simp: dims_drag_release)
      then show ?thesis using apply_throw_on_screen [of p1] p1(2,3) by simp
    qed }
  { assume h: "exit_taken (update_state d i p) = Completed
      \<and> 0 \<le> screen_width ?q \<and> width ?q \<le> screen_width ?q"
    then obtain p1 where "behave d i p1 = (?q, Completed)" using exits q ex by auto
    then have "snd (behave d i p1) = Completed" "fst (behave d i p1) = ?q" by simp_all
    then obtain mid where mid: "lateral_constraint mid = (None, ?q)"
      using behave_completed [of d i p1] by auto
    note lb = lateral_constraint_bounds [OF mid]
    show "0 \<le> x ?q" using lb h by simp
    show "x ?q \<le> real_of_int (screen_width ?q - width ?q)" using lb by simp }
qed

theorem tick_keeps_on_screen_witness:
  "width example_pet \<le> screen_width example_pet \<and> height example_pet \<le> screen_height example_pet
   \<and> exit_taken (update_state example_deps (near_input\<lparr>left_down := True, mouse_x := 5000\<rparr>)
        dragged_pet) = Drag_return
   \<and> on_screen (pet_after (update_state example_deps
        (near_input\<lparr>left_down := True, mouse_x := 5000\<rparr>) dragged_pet))
   \<and> exit_taken (update_state example_deps near_input (example_pet\<lparr>throw_velocity := (30, 40)\<rparr>))
        = Throw_return
   \<and> on_screen (pet_after (update_state example_deps near_input
        (example_pet\<lparr>throw_velocity := (30, 40)\<rparr>)))
   \<and> exit_taken (update_state example_deps near_input example_pet) = Completed
   \<and> 0 \<le> x (pet_after (update_state example_deps near_input example_pet))
   \<and> x (pet_after (update_state example_deps near_input example_pet)) \<le> 1840"
proof -
  let ?far = "near_input\<lparr>left_down := True, mouse_x := 5000\<rparr>"
  let ?thrown = "example_pet\<lparr>throw_velocity := (30, 40)\<rparr>"
  have fit: "width example_pet \<le> screen_width example_pet \<and> height example_pet \<le> screen_height example_pet"
    "width dragged_pet \<le> screen_width dragged_pet \<and> height dragged_pet \<le> screen_height dragged_pet"
    "width ?thrown \<le> screen_width ?thrown \<and> height ?thrown \<le> screen_height ?thrown"
    by (simp_all add: example_pet_def dragged_pet_def)
  have dr: "exit_taken (update_state example_deps ?far dragged_pet) = Drag_return"
    by (rule update_state_drag_exit) (simp_all add: dragged_pet_def)
  have thr: "exit_taken (update_state example_deps near_input ?thrown) = Throw_return"
    by (rule update_state_throw_exit)
      (simp_all add: example_pet_def near_input_def example_input_def vx_def vy_def)
  have idle: "\<not> dragging example_pet"
      "\<not> (left_down near_input \<and> in_bounds near_input example_pet)"
      "\<bar>vx example_pet\<bar> < 0.2" "\<bar>vy example_pet\<bar> < 0.2"
    by (simp_all add: example_pet_def near_input_def example_input_def vx_def vy_def)
  have low: "lower ''small'' = ''small''" by (simp add: lower_def lower_char_def)
  have r: "behave example_deps near_input
             (example_pet\<lparr>right_click_consumed := right_down near_input
                  \<and> (right_click_consumed example_pet \<or> in_bounds near_input example_pet),
                throw_velocity := (0, 0)\<rparr>)
      = (example_pet\<lparr>immunity := True, height_lie := 40,
           state := Some \<lparr>name = ''lie'', gif = ''media/cat/black_lie_8fps.gif'', hold = 24,
                          movement_speed = 0, speed_animation = 1, direction = 1, counter = 0\<rparr>,
           frame_interval := Some (1 / 8)\<rparr>, Completed)"
    by (simp add: behave_def color_states_def react_def lie_override_def lie_defaults_def
        distance_def frame_animation_def lateral_constraint_def lateral_clamp_def
        bucket_height_def low State_def Let_def
        example_deps_def example_data_def example_pet_def near_input_def example_input_def)
  have fin: "exit_taken (update_state example_deps near_input example_pet) = Completed
      \<and> 0 \<le> screen_width (pet_after (update_state example_deps near_input example_pet))
      \<and> width (pet_after (update_state example_deps near_input example_pet))
           \<le> screen_width (pet_after (update_state example_deps near_input example_pet))
      \<and> screen_width (pet_after (update_state example_deps near_input example_pet))
           - width (pet_after (update_state example_deps near_input example_pet)) = 1840"
    using update_state_idle [OF idle, of example_deps]
    by (simp add: r) (simp add: example_pet_def)
  note a = tick_keeps_on_screen [of dragged_pet example_deps ?far, THEN conjunct1, rule_format]
  note b = tick_keeps_on_screen [of ?thrown example_deps near_input, THEN conjunct1, rule_format]
  note c = tick_keeps_on_screen [of example_pet example_deps near_input, THEN conjunct2, rule_format]
  have 1: "on_screen (pet_after (update_state example_deps ?far dragged_pet))"
    using a fit(2) dr by simp
  have 2: "on_screen (pet_after (update_state example_deps near_input ?thrown))"
    using b fit(3) thr by simp
  have 3: "0 \<le> x (pet_after (update_state example_deps near_input example_pet))
      \<and> x (pet_after (update_state example_deps near_input example_pet)) \<le> 1840"
    using c fin by simp
  show ?thesis using fit(1) dr thr fin 1 2 3 by simp
qed

text \<open>
  The claim as stated fails on a normal tick. At size \<^verbatim>\<open>original\<close> the height of the agent
  is the native height of the current gif. The agent stands on the bottom edge, the pointer
  comes close, the proximity override loads the taller \<^verbatim>\<open>lie\<close> frames, and the tick
  completes with \<open>y = 1048\<close> and \<open>height = 48\<close> on a screen of height 1080: nothing in a
  normal tick adjusts y.
\<close>

theorem tick_off_screen_counterexample:
  "on_screen original_pet
   \<and> exit_taken (update_state tall_lie_deps original_input original_pet) = Completed
   \<and> y (pet_after (update_state tall_lie_deps original_input original_pet)) = 1048
   \<and> height (pet_after (update_state tall_lie_deps original_input original_pet)) = 48
   \<and> screen_height (pet_after (update_state tall_lie_deps original_input original_pet)) = 1080
   \<and> \<not> on_screen (pet_after (update_state tall_lie_deps original_input original_pet))"
proof -
  have idle: "\<not> dragging original_pet"
      "\<not> (left_down original_input \<and> in_bounds original_input original_pet)"
      "\<bar>vx original_pet\<bar> < 0.2" "\<bar>vy original_pet\<bar> < 0.2"
    by (simp_all add: original_pet_def example_pet_def original_input_def example_input_def
        vx_def vy_def)
  have before: "on_screen original_pet"
    by (simp add: on_screen_def original_pet_def example_pet_def)
  have low: "lower ''original'' = ''original''" by (simp add: lower_def lower_char_def)
  have r: "behave tall_lie_deps original_input
             (original_pet\<lparr>right_click_consumed := right_down original_input
                  \<and> (right_click_consumed original_pet \<or> in_bounds original_input original_pet),
                throw_velocity := (0, 0)\<rparr>)
      = (original_pet\<lparr>throw_velocity := (0, 0), immunity := True, frames := [(64, 48), (64, 48)],
           height_lie := 48, width := 64, height := 48, frame_count := 2, current_frame := 0,
           state := Some \<lparr>name = ''lie'', gif = ''media/cat/black_lie_8fps.gif'', hold = 24,
                          movement_speed = 0, speed_animation = 1, direction = 1, counter = 0\<rparr>,
           frame_interval := Some (1 / 8)\<rparr>, Completed)"
    by (simp add: behave_def color_states_def react_def lie_override_def lie_defaults_def
        distance_def frame_animation_def lateral_constraint_def lateral_clamp_def
        bucket_height_def low State_def Let_def
        tall_lie_deps_def example_deps_def example_data_def original_pet_def example_pet_def
        original_input_def example_input_def)
  show ?thesis
    using update_state_idle [OF idle, of tall_lie_deps] before
    by (simp add: r) (simp add: on_screen_def original_pet_def example_pet_def)
qed

section \<open>A species or colour that the catalogue lacks\<close>

text \<open>
  Claim C8, as the code has it. For every species and colour pair that the catalogue
  lacks, the lookup in \<^verbatim>\<open>Pet.__init__\<close> raises \<^verbatim>\<open>KeyError\<close>, which the constructor's own
  \<^verbatim>\<open>except\<close> clause catches: the call returns normally with a half-initialised object.
  \<^verbatim>\<open>load_deskpets_mapping\<close> raises \<^verbatim>\<open>KeyError\<close> to its caller.
\<close>

theorem absent_variant_handling:
  assumes absent: "\<not> has_variant (PETS_DATA d) sp col"
  shows "Pet_init d env sp col base_fps sz = Inr (Half_initialised KeyError)
       \<and> load_deskpets_mapping (Some (PETS_DATA d)) asset_exists sp col = Inl KeyError"
proof -
  have "lookup_states_info (PETS_DATA d) sp col base_fps = Inl KeyError"
    using absent by (auto simp: lookup_states_info_def has_variant_def Let_def split: option.splits)
  then have a: "Pet_init d env sp col base_fps sz = Inr (Half_initialised KeyError)"
    by (simp add: Pet_init_def Pet_init_body_def)
  have b: "load_deskpets_mapping (Some (PETS_DATA d)) asset_exists sp col = Inl KeyError"
    using absent by (auto simp: load_deskpets_mapping_def has_variant_def Let_def split: option.splits)
  show ?thesis using a b by simp
qed

theorem absent_variant_handling_witness:
  "\<not> has_variant example_data ''cat'' ''white''
   \<and> Pet_init example_deps example_env ''cat'' ''white'' 8 ''small'' = Inr (Half_initialised KeyError)
   \<and> load_deskpets_mapping (Some example_data) (\<lambda>path. True) ''cat'' ''white'' = Inl KeyError
   \<and> \<not> has_variant example_data ''dog'' ''black''
   \<and> Pet_init example_deps example_env ''dog'' ''black'' 8 ''small'' = Inr (Half_initialised KeyError)
   \<and> load_deskpets_mapping (Some example_data) (\<lambda>path. True) ''dog'' ''black'' = Inl KeyError"
proof -
  have d: "PETS_DATA example_deps = example_data" by (simp add: example_deps_def)
  have a: "\<not> has_variant (PETS_DATA example_deps) ''cat'' ''white''"
    "\<not> has_variant (PETS_DATA example_deps) ''dog'' ''black''"
    by (simp_all add: has_variant_def example_deps_def example_data_def)
  show ?thesis
    using absent_variant_handling [OF a(1), of example_env 8 "''small''" "\<lambda>path. True"]
      absent_variant_handling [OF a(2), of example_env 8 "''small''" "\<lambda>path. True"] a
    by (simp add: d)
qed

text \<open>
  The claim as stated has construction raise. \<^verbatim>\<open>Pet("cat", "white", 8, "small")\<close> on a
  catalogue without that colour returns an object instead.
\<close>

theorem constructor_swallows_counterexample:
  "\<not> has_variant example_data ''cat'' ''white''
   \<and> Pet_init example_deps example_env ''cat'' ''white'' 8 ''small'' \<noteq> Inl KeyError
   \<and> Pet_init example_deps example_env ''cat'' ''white'' 8 ''small'' = Inr (Half_initialised KeyError)"
  by (simp add: has_variant_def Pet_init_def Pet_init_body_def lookup_states_info_def
      example_deps_def example_data_def)

text \<open>
  On the example configuration the constructor succeeds: the cat rests on top of the
  taskbar at the right edge, in the state the draw selects among those not excluded.
\<close>

lemma Pet_init_example:
  "Pet_init example_deps example_env ''cat'' ''black'' 8 ''small''
     = Inr (Initialised (example_pet\<lparr>y := 1000, y_def := 1000, has_main_window := False,
         state := Some (example_state\<lparr>counter := 0\<rparr>)\<rparr>))"
  by (simp add: Pet_init_def Pet_init_body_def lookup_states_info_def make_info_def
      random_state_def random_state_body_def standing_exclusion_def random_choice_def State_def
      frames_sized_def frame_animation_def bucket_height_def lower_def lower_char_def Let_def
      example_deps_def example_data_def example_env_def example_pet_def example_state_def)

text \<open>
  A constructor that runs to completion has selected a state, so the catalogue of a
  fully constructed pet is never empty.
\<close>

lemma initialised_catalogue_nonempty:
  assumes "Pet_init d env sp col base_fps sz = Inr (Initialised p)"
  shows "STATES_INFO p \<noteq> []"
proof -
  obtain infos where infos: "lookup_states_info (PETS_DATA d) sp col base_fps = Inr infos"
    using assms by (cases "lookup_states_info (PETS_DATA d) sp col base_fps")
      (simp_all add: Pet_init_def Pet_init_body_def)
  have body: "Pet_init_body d env sp col base_fps sz = Inr p"
    using assms by (simp add: Pet_init_def split: sum.splits)
  have "random_state d (init_rnd_name env) (init_rnd_direction env) infos standing_exclusion \<noteq> None"
    using body infos
    by (auto simp: Pet_init_body_def Let_def frames_sized_def split: if_splits option.splits)
  then have ne: "infos \<noteq> []" using random_state_empty by metis
  have fa: "\<And>q. STATES_INFO (frame_animation d q) = STATES_INFO q"
    by (simp add: frame_animation_def Let_def split: option.splits prod.splits list.splits)
  have "STATES_INFO p = infos"
    using body infos by (auto simp: Pet_init_body_def Let_def fa split: if_splits)
  then show ?thesis using ne by simp
qed

section \<open>Fetching undelivered messages\<close>




lemma strip_Nil [simp]: "strip [] = []"
  by (simp add: strip_def)














text \<open>
  Likewise a row whose text is a number has no \<^verbatim>\<open>strip\<close> at line 91.
\<close>

lemma fetch_undelivered_ill_typed:
  "fetch_undelivered [''shared/inbox_jinho.jsonl'' \<mapsto> [Decodes (JObj [(''text'', JNum 5)])]] 200
     ''shared'' ''jinho''
     = (Inl AttributeError, [''shared/inbox_jinho.jsonl'' \<mapsto> [Decodes (JObj [(''text'', JNum 5)])]])"
  by (simp add: fetch_undelivered_def read_jsonl_def inbox_path_def row_text_def Let_def)

text \<open>
  Text that consists of the characters \<^verbatim>\<open>str.strip\<close> removes, among them the no-break
  space and the next-line control, counts as blank.
\<close>

lemma strip_nbsp: "strip [CHR 0x85] = []" "strip [CHR 0xA0, CHR '' ''] = []"
  by (simp_all add: strip_def is_space_def)

lemma read_lines_append: "read_lines (ls @ [Decodes v]) = read_lines ls @ [v]"
  by (induction ls rule: read_lines.induct) simp_all

text \<open>
  Every row that \<^verbatim>\<open>send_message\<close> appends is a message row, so an inbox written through
  it alone stays within the format.
\<close>

lemma send_message_keeps_message_rows:
  assumes "list_all message_row (read_jsonl fs path)"
  shows "list_all message_row
           (read_jsonl (send_message fs msg_id t shared_dir sender receiver text_arg) path)"
  using assms
  by (auto simp: send_message_def atomic_append_jsonl_def read_jsonl_def read_lines_append
      message_row_def is_text_def Let_def split: option.splits)

end
